(* ===== verification/Prelude.thy ===== *)
theory Prelude
  imports Main "HOL-Library.Sublist"
begin

text \<open>
  Shared vocabulary of the development: the JavaScript values the content script
  handles (strings, \<open>null\<close>, thrown errors) and the three string built-ins it calls,
  \<open>String.prototype.split\<close>, \<open>String.prototype.trim\<close> and
  \<open>String.prototype.includes\<close>, written as executable HOL functions together with the
  list lemmas the component theories share.

  A JavaScript string is a sequence of UTF-16 code units; the model takes
  \<open>string\<close> (a list of 8-bit \<open>char\<close>s) and reads each \<open>char\<close> as the code unit
  U+0000..U+00FF of the same number. The one non-ASCII character the script writes,
  the middle dot U+00B7, is the single \<open>char\<close> \<open>CHR 0xB7\<close>.
\<close>

named_theorems js_simps \<open>evaluation rules of the modelled JavaScript built-ins\<close>

type_synonym js_string = string

subsection \<open>Thrown values\<close>

text \<open>
  The script throws \<open>new Error(msg)\<close> itself; the engine throws a \<open>TypeError\<close> when
  an undefined method is called and a \<open>ReferenceError\<close> when an undeclared global is
  read. The message of an engine error is engine-specific text; the model carries it.
\<close>

datatype js_error =
    Error js_string
  | TypeError js_string
  | ReferenceError js_string

primrec err_message :: "js_error \<Rightarrow> js_string" where
  "err_message (Error m) = m"
| "err_message (TypeError m) = m"
| "err_message (ReferenceError m) = m"

text \<open>A computation that may throw: \<open>Inl\<close> is the thrown value.\<close>

type_synonym 'a js_result = "js_error + 'a"

subsection \<open>Console output\<close>

text \<open>
  A line of the console: \<open>console.log\<close> or \<open>console.error\<close>, with the message the
  script passes first. The objects some calls pass after it (elements, the collected
  fields, the caught error) are not kept; which messages are written, and in which
  order, is. Logging has no other effect, so a component's console output is an
  observation of a run, computed apart from the state it changes.
\<close>

datatype console_entry = ConsoleLog js_string | ConsoleError js_string

text \<open>
  A value that is a string or \<open>null\<close> (\<open>getAttribute\<close> returns \<open>null\<close> for a
  missing attribute), and its conversion in a template literal: \<open>`${null}`\<close> is
  \<open>"null"\<close>.
\<close>

type_synonym js_nullable_string = "js_string option"

primrec js_to_string :: "js_nullable_string \<Rightarrow> js_string" where
  "js_to_string None = ''null''"
| "js_to_string (Some s) = s"

subsection \<open>Scanning to a delimiter\<close>

lemma takeWhile_neq_append [simp]: "c \<notin> set a \<Longrightarrow> takeWhile (\<lambda>x. x \<noteq> c) (a @ c # b) = a"
  by (induction a) auto

lemma dropWhile_neq_append [simp]:
  "c \<notin> set a \<Longrightarrow> dropWhile (\<lambda>x. x \<noteq> c) (a @ c # b) = c # b"
  by (induction a) auto

subsection \<open>String.prototype.split with a one-character separator\<close>

text \<open>
  \<open>s.split(c)\<close> cuts \<open>s\<close> at every occurrence of \<open>c\<close> and keeps the empty pieces:
  \<open>"/a/b".split("/")\<close> is \<open>["", "a", "b"]\<close> and \<open>"".split("/")\<close> is \<open>[""]\<close>.
\<close>

fun js_split :: "char \<Rightarrow> js_string \<Rightarrow> js_string list" where
  "js_split c [] = [[]]"
| "js_split c (x # xs) =
     (if x = c then [] # js_split c xs
      else (case js_split c xs of [] \<Rightarrow> [[x]] | p # ps \<Rightarrow> (x # p) # ps))"

lemma js_split_not_Nil [simp]: "js_split c s \<noteq> []"
  by (induction s) (auto split: list.split)

lemma js_split_no_sep [simp]: "c \<notin> set s \<Longrightarrow> js_split c s = [s]"
  by (induction s) auto

lemma js_split_sep_append [simp, js_simps]:
  "c \<notin> set a \<Longrightarrow> js_split c (a @ c # b) = a # js_split c b"
  by (induction a) auto

lemma length_js_split: "length (js_split c s) = Suc (count_list s c)"
  by (induction s) (auto split: list.split)

lemma js_split_pieces: "p \<in> set (js_split c s) \<Longrightarrow> c \<notin> set p"
proof (induction s arbitrary: p)
  case Nil
  then show ?case by simp
next
  case (Cons x xs)
  then show ?case
    by (cases "js_split c xs") (auto split: if_splits)
qed

text \<open>
  \<open>Array.prototype.join\<close> with a one-character separator, the inverse of \<open>js_split\<close>.
\<close>

fun js_join :: "char \<Rightarrow> js_string list \<Rightarrow> js_string" where
  "js_join c [] = []"
| "js_join c [p] = p"
| "js_join c (p # q # ps) = p @ c # js_join c (q # ps)"

lemma js_join_Cons_hd [simp]: "js_join c ((x # p) # ps) = x # js_join c (p # ps)"
  by (cases ps) auto

lemma js_join_split [simp]: "js_join c (js_split c s) = s"
proof (induction s)
  case Nil
  then show ?case by simp
next
  case (Cons x xs)
  then show ?case
    by (cases "js_split c xs") (auto split: list.split)
qed

lemma js_split_join: "\<forall>p\<in>set ps. c \<notin> set p \<Longrightarrow> ps \<noteq> [] \<Longrightarrow> js_split c (js_join c ps) = ps"
  by (induction c ps rule: js_join.induct) auto

subsection \<open>String.prototype.trim\<close>

text \<open>
  \<open>trim\<close> removes leading and trailing white space and line terminators. Of the
  code units the model has, these are TAB, LF, VT, FF, CR, SPACE and NO-BREAK SPACE
  (U+00A0).
\<close>

definition is_js_space :: "char \<Rightarrow> bool" where
  "is_js_space c \<longleftrightarrow> of_char c \<in> {9, 10, 11, 12, 13, 32, 160 :: nat}"

definition js_trim :: "js_string \<Rightarrow> js_string" where
  "js_trim s = rev (dropWhile is_js_space (rev (dropWhile is_js_space s)))"

lemma dropWhile_hd_keep: "xs \<noteq> [] \<Longrightarrow> \<not> P (hd xs) \<Longrightarrow> dropWhile P xs = xs"
  by (cases xs) auto

lemma dropWhile_Nil_iff_hd: "dropWhile P xs = [] \<longleftrightarrow> (\<forall>x\<in>set (dropWhile P xs). P x)"
proof
  assume all: "\<forall>x\<in>set (dropWhile P xs). P x"
  show "dropWhile P xs = []"
  proof (rule ccontr)
    assume ne: "dropWhile P xs \<noteq> []"
    then have "\<not> P (hd (dropWhile P xs))" by (rule hd_dropWhile)
    moreover from ne have "hd (dropWhile P xs) \<in> set (dropWhile P xs)" by (rule hd_in_set)
    ultimately show False using all by blast
  qed
qed (auto dest: set_dropWhileD)

lemma js_trim_ends:
  "js_trim s \<noteq> [] \<Longrightarrow> \<not> is_js_space (hd (js_trim s)) \<and> \<not> is_js_space (last (js_trim s))"
  unfolding js_trim_def
  by (metis Nil_is_rev_conv dropWhile.simps(1) dropWhile_eq_Nil_conv
    dropWhile_last hd_dropWhile hd_rev last_rev)

lemma js_trim_Nil_iff: "js_trim s = [] \<longleftrightarrow> (\<forall>c\<in>set s. is_js_space c)"
proof -
  have "js_trim s = [] \<longleftrightarrow> (\<forall>x\<in>set (dropWhile is_js_space s). is_js_space x)"
    unfolding js_trim_def by (simp add: dropWhile_eq_Nil_conv)
  also have "\<dots> \<longleftrightarrow> dropWhile is_js_space s = []"
    by (rule dropWhile_Nil_iff_hd [symmetric])
  finally show ?thesis by (simp add: dropWhile_eq_Nil_conv)
qed

lemma js_trim_id:
  "s = [] \<or> \<not> is_js_space (hd s) \<and> \<not> is_js_space (last s) \<Longrightarrow> js_trim s = s"
  unfolding js_trim_def
  by (cases s rule: rev_cases) (auto simp: dropWhile_hd_keep)

lemma js_trim_idem [simp]: "js_trim (js_trim s) = js_trim s"
  using js_trim_ends js_trim_id by blast

lemma js_trim_infix:
  "\<exists>a b. s = a @ js_trim s @ b \<and> (\<forall>c\<in>set a. is_js_space c) \<and> (\<forall>c\<in>set b. is_js_space c)"
proof -
  let ?d = "dropWhile is_js_space s"
  have 1: "s = takeWhile is_js_space s @ ?d" by simp
  have 2: "rev ?d = takeWhile is_js_space (rev ?d) @ dropWhile is_js_space (rev ?d)" by simp
  then have "?d = js_trim s @ rev (takeWhile is_js_space (rev ?d))"
    unfolding js_trim_def by (metis rev_append rev_rev_ident)
  with 1 show ?thesis
    by (metis append.assoc set_rev set_takeWhileD)
qed
subsection \<open>String.prototype.includes\<close>

text \<open>
  \<open>s.includes(p)\<close> holds when \<open>p\<close> occurs in \<open>s\<close> as a contiguous piece.
  The executable definition tries every start position, as the built-in does; it agrees
  with the library's \<open>sublist\<close>.
\<close>

fun js_includes :: "js_string \<Rightarrow> js_string \<Rightarrow> bool" where
  "js_includes p [] \<longleftrightarrow> p = []"
| "js_includes p (x # xs) \<longleftrightarrow> prefix p (x # xs) \<or> js_includes p xs"

lemma js_includes_sublist [js_simps]: "js_includes p s \<longleftrightarrow> sublist p s"
  by (induction s) (auto simp: sublist_Cons_right)

lemma js_includes_append [simp]: "js_includes p (a @ p @ b)"
  by (simp add: js_includes_sublist)

end
