(* ===== verification/Page.thy ===== *)
theory Page
  imports Prelude
begin

text \<open>
  The state the content script \<open>src/Shared (Extension)/Resources/content.js\<close> reads and
  writes, shared by every component theory. The document is reduced to what the script
  queries: the repository meta element, the three PR header elements, the children of
  \<open>.gh-header-actions\<close>, the ids of all other elements, the notification elements the
  script appends to \<open>document.body\<close>, and \<open>window.location\<close>. Around it, the
  \<open>browser\<close> record holds what the event loop keeps for the script: the clock, the
  \<open>setTimeout\<close> queue, pending promise reactions, the mutation records queued for the
  two \<open>MutationObserver\<close>s, the system clipboard and the script's global
  \<open>lastUrl\<close>.
\<close>

type_synonym elem_id = js_string

text \<open>An element: tag, \<open>id\<close>, \<open>className\<close>, \<open>textContent\<close>, and whether the
  script's click listener \<open>handleButtonClick\<close> is attached.\<close>

datatype elem = Elem
  (elem_tag: js_string) (elem_id: "elem_id option") (elem_class: js_string)
  (elem_text: js_string) (elem_onclick: bool)

text \<open>A notification \<open>div\<close> made by \<open>showNotification\<close>: a serial number (the model's
  handle for the element object), its text, and whether its opacity has been set to 0.\<close>

datatype toast = Toast (toast_no: nat) (toast_msg: js_string) (toast_faded: bool)

record page =
  meta_nwo :: "js_nullable_string option"
    \<comment> \<open>\<open>meta[name="octolytics-dimension-repository_nwo"]\<close>: absent, or its \<open>content\<close> attribute\<close>
  issue_title :: "js_string option"  \<comment> \<open>\<open>textContent\<close> of the first \<open>.js-issue-title\<close>\<close>
  author_el :: "js_string option"    \<comment> \<open>\<open>textContent\<close> of the first \<open>.author\<close>\<close>
  header_number :: "js_string option" \<comment> \<open>\<open>textContent\<close> of the first \<open>.gh-header-number\<close>\<close>
  header_actions :: "elem list option" \<comment> \<open>children of the first \<open>.gh-header-actions\<close>\<close>
  other_ids :: "elem_id list"         \<comment> \<open>ids of the elements outside that region\<close>
  toasts :: "toast list"              \<comment> \<open>notification elements in \<open>document.body\<close>\<close>
  pathname :: js_string               \<comment> \<open>\<open>window.location.pathname\<close>\<close>
  href :: js_string                   \<comment> \<open>\<open>window.location.href\<close>\<close>

definition doc_ids :: "page \<Rightarrow> elem_id list" where
  "doc_ids p =
     (case header_actions p of None \<Rightarrow> [] | Some cs \<Rightarrow> List.map_filter elem_id cs) @ other_ids p"

text \<open>\<open>document.getElementById(i)\<close>, used only for its truthiness.\<close>

definition get_element_by_id :: "elem_id \<Rightarrow> page \<Rightarrow> bool" where
  "get_element_by_id i p \<longleftrightarrow> i \<in> set (doc_ids p)"

text \<open>The callbacks the script hands to \<open>setTimeout\<close>: \<open>tryAddButton\<close> of one
  \<open>checkAndAddButton\<close> call with the value of its \<open>attempts\<close> variable, and the two
  timers of \<open>showNotification\<close> for one notification.\<close>

datatype task =
    TryAddButton nat
  | FadeToast nat
  | RemoveToast nat

datatype clip_content = ClipHtml js_string | ClipText js_string

record browser =
  page :: page
  clock :: nat                        \<comment> \<open>milliseconds\<close>
  timers :: "(nat \<times> task) list"      \<comment> \<open>pending \<open>setTimeout\<close>s: due time and callback, in order\<close>
  jobs :: "js_string list"            \<comment> \<open>pending promise reactions, each showing a message\<close>
  body_records :: nat                 \<comment> \<open>mutation records queued for the \<open>document.body\<close> observer\<close>
  doc_record :: bool                  \<comment> \<open>a record is queued for the \<open>document\<close> observer\<close>
  clipboard :: "clip_content option"
  last_url :: js_string               \<comment> \<open>the script's global \<open>lastUrl\<close>\<close>
  toast_counter :: nat                \<comment> \<open>serial number of the next notification\<close>

text \<open>\<open>setTimeout(f, d)\<close>: the callback is queued, due \<open>d\<close> milliseconds from now.\<close>

definition set_timeout :: "nat \<Rightarrow> task \<Rightarrow> browser \<Rightarrow> browser" where
  "set_timeout d t b = b\<lparr>timers := timers b @ [(clock b + d, t)]\<rparr>"

text \<open>A \<open>childList\<close> change inside \<open>document.body\<close>: both observers watch the subtree,
  so the body observer gets one more record and the document observer is notified.\<close>

definition note_child_list :: "browser \<Rightarrow> browser" where
  "note_child_list b = b\<lparr>body_records := Suc (body_records b), doc_record := True\<rparr>"

text \<open>The state when the script has been loaded into a page: nothing queued, the
  clipboard untouched, \<open>lastUrl = location.href\<close> (line 166).\<close>

definition load_state :: "page \<Rightarrow> browser" where
  "load_state p =
     \<lparr>page = p, clock = 0, timers = [], jobs = [], body_records = 0, doc_record = False,
      clipboard = None, last_url = href p, toast_counter = 0\<rparr>"

lemma doc_ids_other_fields [simp]:
  "doc_ids (p\<lparr>toasts := ts\<rparr>) = doc_ids p"
  "doc_ids (p\<lparr>meta_nwo := m\<rparr>) = doc_ids p"
  "doc_ids (p\<lparr>issue_title := t\<rparr>) = doc_ids p"
  "doc_ids (p\<lparr>pathname := s\<rparr>) = doc_ids p"
  "doc_ids (p\<lparr>href := s\<rparr>) = doc_ids p"
  by (simp_all add: doc_ids_def)

lemma doc_ids_prepend:
  "header_actions p = Some cs \<Longrightarrow>
   doc_ids (p\<lparr>header_actions := Some (e # cs)\<rparr>) =
     (case elem_id e of None \<Rightarrow> [] | Some i \<Rightarrow> [i]) @ doc_ids p"
  by (simp add: doc_ids_def List.map_filter_def split: option.split)

lemma browser_updates_keep_page [simp]:
  "page (set_timeout d t b) = page b"
  "page (note_child_list b) = page b"
  "timers (note_child_list b) = timers b"
  "clock (set_timeout d t b) = clock b"
  by (simp_all add: set_timeout_def note_child_list_def)

subsection \<open>Example pages\<close>

text \<open>Inputs for the witnesses: a pull-request page as the host renders it once loaded
  (header region with one native button, the repository meta element, the header
  texts with the white space of the markup), and the same page before the header has
  been rendered.\<close>

definition example_pr_page :: page where
  "example_pr_page =
     \<lparr>meta_nwo = Some (Some ''octo/hello''),
      issue_title = Some ''\<newline>    Fix bug\<newline>  '',
      author_el = Some ''alice'',
      header_number = Some '' #42'',
      header_actions = Some [Elem ''button'' None ''btn btn-sm'' ''Edit'' False],
      other_ids = [''repo-content-turbo-frame''],
      toasts = [],
      pathname = ''/octo/hello/pull/42'',
      href = ''https://github.com/octo/hello/pull/42''\<rparr>"

definition example_loading_page :: page where
  "example_loading_page = example_pr_page\<lparr>header_actions := None\<rparr>"

text \<open>An issue page of the same repository: it has the same header structure.\<close>

definition example_issue_page :: page where
  "example_issue_page = example_pr_page\<lparr>header_number := Some ''#3'',
     pathname := ''/octo/hello/issues/3'', href := ''https://github.com/octo/hello/issues/3''\<rparr>"

end
