(* ===== verification/Formatter.thy ===== *)
theory Formatter
  imports Prelude
begin

text \<open>
  The link formatter: the two template literals of \<open>generatePRLink\<close> (content.js
  lines 39 and 42) and the object it returns. The theory also holds two readers of the
  rich link, used only in statements: \<open>parse_anchor\<close>, which takes the anchor markup
  apart, and \<open>html_text\<close>, the text a browser shows for HTML markup (tags dropped).
  The lemmas show that the plain text is exactly the anchor's content, and that the text
  a rich-text consumer shows equals the plain text when the fields hold no \<open><\<close>,
  but not otherwise: the script does not escape the fields it puts into HTML.
\<close>

definition middot :: char where
  "middot = CHR 0xB7"

text \<open>The visible text, \<open>`${title} by ${author} \<middot> ${prNumber} \<middot> ${repoInfo}`\<close>
  (line 42); \<open>repoInfo\<close> may be \<open>null\<close>.\<close>

definition plain_text_of ::
  "js_string \<Rightarrow> js_string \<Rightarrow> js_string \<Rightarrow> js_nullable_string \<Rightarrow> js_string" where
  "plain_text_of title author pr_number repo_info =
     title @ '' by '' @ author @ '' '' @ middot # '' '' @ pr_number @ '' '' @ middot # '' ''
     @ js_to_string repo_info"

text \<open>\<open>`<a href="${window.location.href}">${title} by ${author} \<middot> ${prNumber}
  \<middot> ${repoInfo}</a>`\<close> (line 39), written out as the source writes it.\<close>

definition rich_link_of ::
  "js_string \<Rightarrow> js_string \<Rightarrow> js_string \<Rightarrow> js_string \<Rightarrow> js_nullable_string \<Rightarrow> js_string" where
  "rich_link_of loc_href title author pr_number repo_info =
     ''<a href=\"'' @ loc_href @ ''\">'' @ title @ '' by '' @ author @ '' '' @ middot # '' ''
     @ pr_number @ '' '' @ middot # '' '' @ js_to_string repo_info @ ''</a>''"

record link_payload =
  richLink :: js_string
  plainText :: js_string

definition pr_link ::
  "js_string \<Rightarrow> js_string \<Rightarrow> js_string \<Rightarrow> js_string \<Rightarrow> js_nullable_string \<Rightarrow> link_payload" where
  "pr_link loc_href title author pr_number repo_info =
     \<lparr>richLink = rich_link_of loc_href title author pr_number repo_info,
      plainText = plain_text_of title author pr_number repo_info\<rparr>"

lemmas formatter_defs = pr_link_def rich_link_of_def plain_text_of_def

definition anchor_open :: "js_string \<Rightarrow> js_string" where
  "anchor_open h = ''<a href=\"'' @ h @ ''\">''"

lemma rich_link_of_anchor:
  "rich_link_of h t a n r = anchor_open h @ plain_text_of t a n r @ ''</a>''"
  by (simp add: rich_link_of_def plain_text_of_def anchor_open_def)

subsection \<open>Taking the anchor apart\<close>

text \<open>\<open>parse_anchor\<close> reads \<open><a href="h">t</a>\<close> back into \<open>(h, t)\<close>: the
  attribute value ends at the first double quote.\<close>

definition parse_anchor :: "js_string \<Rightarrow> (js_string \<times> js_string) option" where
  "parse_anchor s =
     (if prefix ''<a href=\"'' s then
        (let r = drop 9 s; h = takeWhile (\<lambda>c. c \<noteq> CHR 0x22) r;
             rest = dropWhile (\<lambda>c. c \<noteq> CHR 0x22) r in
         if prefix ''\">'' rest \<and> suffix ''</a>'' (drop 2 rest)
         then Some (h, take (length rest - 6) (drop 2 rest))
         else None)
      else None)"

lemma parse_anchor_open:
  assumes "CHR 0x22 \<notin> set h"
  shows "parse_anchor (anchor_open h @ t @ ''</a>'') = Some (h, t)"
  using assms by (simp add: parse_anchor_def anchor_open_def Let_def prefix_def suffix_def)

subsection \<open>The text a browser shows\<close>

text \<open>
  An HTML parser starts a tag at \<open><\<close> followed by a letter, \<open>/\<close>, \<open>!\<close> or
  \<open>?\<close> and ends it at the next \<open>>\<close>; everything else is text. Character
  references (\<open>&amp;\<close>, \<open>&lt;\<close>, \<open>&#60;\<close>) are not decoded, so
  \<open>html_text\<close> is what a browser shows only for text without \<open>&\<close>: the
  statements that use it assume that the plain text holds no \<open>&\<close>.
\<close>

definition tag_open :: "char \<Rightarrow> bool" where
  "tag_open c \<longleftrightarrow> c \<in> set ''/!?'' \<or> of_char c \<in> {65..90::nat} \<or> of_char c \<in> {97..122::nat}"

function html_text :: "js_string \<Rightarrow> js_string" where
  "html_text [] = []"
| "html_text (c # cs) =
     (if c = CHR ''<'' \<and> cs \<noteq> [] \<and> tag_open (hd cs)
      then html_text (drop 1 (dropWhile (\<lambda>x. x \<noteq> CHR ''>'') cs))
      else c # html_text cs)"
  by pat_completeness auto
termination
  by (relation "measure length")
    (simp_all add: le_imp_less_Suc order.trans [OF diff_le_self length_dropWhile_le])

lemma html_text_plain [simp]: "CHR ''<'' \<notin> set t \<Longrightarrow> html_text t = t"
  by (induction t) auto

lemma html_text_append_plain:
  "CHR ''<'' \<notin> set a \<Longrightarrow> html_text (a @ b) = a @ html_text b"
  by (induction a) auto

lemma html_text_tag:
  assumes "tag_open x" and "CHR ''>'' \<notin> set u"
  shows "html_text (CHR ''<'' # x # u @ CHR ''>'' # v) = html_text v"
proof -
  have "x \<noteq> CHR ''>''" using assms(1) by (auto simp: tag_open_def)
  with assms show ?thesis by simp
qed

lemma html_text_anchor:
  assumes "CHR ''>'' \<notin> set h"
  shows "html_text (anchor_open h @ t @ ''</a>'') = html_text (t @ ''</a>'')"
proof -
  let ?u = "'' href=\"'' @ h @ ''\"''"
  have eq: "anchor_open h @ t @ ''</a>'' = CHR ''<'' # CHR ''a'' # ?u @ CHR ''>'' # t @ ''</a>''"
    by (simp add: anchor_open_def)
  have "tag_open (CHR ''a'')" by (simp add: tag_open_def)
  moreover have "CHR ''>'' \<notin> set ?u" using assms by simp
  ultimately show ?thesis
    unfolding eq by (rule html_text_tag)
qed

text \<open>A closing tag at the end adds nothing to the shown text, a tag inside the
  text makes the shown text shorter, and so the rich link shows what its plain text shows
  when parsed as HTML.\<close>

lemma html_text_close_tag: "html_text (s @ ''</a>'') = html_text s"
proof (induction s rule: html_text.induct)
  case 1
  then show ?case by (simp add: tag_open_def)
next
  case (2 c cs)
  let ?P = "\<lambda>x. x \<noteq> CHR ''>''"
  show ?case
  proof (cases "c = CHR ''<'' \<and> cs \<noteq> [] \<and> tag_open (hd cs)")
    case True
    show ?thesis
    proof (cases "CHR ''>'' \<in> set cs")
      case gt: True
      then have "dropWhile ?P (cs @ ''</a>'') = dropWhile ?P cs @ ''</a>''"
        by (auto simp: dropWhile_append1)
      moreover have "dropWhile ?P cs \<noteq> []" using gt by (simp add: dropWhile_eq_Nil_conv)
      then have "drop 1 (dropWhile ?P cs @ ''</a>'') = drop 1 (dropWhile ?P cs) @ ''</a>''"
        by (cases "dropWhile ?P cs") auto
      ultimately show ?thesis using True "2.IH"(1) by simp
    next
      case False
      then have "dropWhile ?P (cs @ ''</a>'') = ''>''" by (subst dropWhile_append2) auto
      moreover have "dropWhile ?P cs = []" using False by (auto simp: dropWhile_eq_Nil_conv)
      ultimately show ?thesis using True by (simp del: dropWhile_eq_Nil_conv)
    qed
  next
    case False
    then show ?thesis using "2.IH"(2) by (cases cs) (auto simp: tag_open_def)
  qed
qed

lemma html_text_length: "length (html_text s) \<le> length s"
proof (induction s rule: html_text.induct)
  case (2 c cs)
  then show ?case
    using length_dropWhile_le [of "\<lambda>x. x \<noteq> CHR ''>''" cs] by (auto simp: le_SucI)
qed simp

lemma html_text_tag_shorter:
  "sublist [CHR ''<'', x] s \<Longrightarrow> tag_open x \<Longrightarrow> length (html_text s) < length s"
proof (induction s rule: html_text.induct)
  case 1
  then show ?case by simp
next
  case (2 c cs)
  show ?case
  proof (cases "c = CHR ''<'' \<and> cs \<noteq> [] \<and> tag_open (hd cs)")
    case True
    then show ?thesis
      using html_text_length [of "drop 1 (dropWhile (\<lambda>x. x \<noteq> CHR ''>'') cs)"]
        length_dropWhile_le [of "\<lambda>x. x \<noteq> CHR ''>''" cs] by simp
  next
    case False
    have "\<not> prefix [CHR ''<'', x] (c # cs)"
      using False "2.prems"(2) by (cases cs) auto
    with "2.prems"(1) have "sublist [CHR ''<'', x] cs"
      by (simp add: sublist_Cons_right) blast
    then have "length (html_text cs) < length cs" using False "2.IH"(2) "2.prems"(2) by blast
    moreover have eq: "html_text (c # cs) = c # html_text cs" using False by auto
    ultimately show ?thesis unfolding eq by simp
  qed
qed

lemma html_text_pr_link:
  "CHR ''>'' \<notin> set loc_href \<Longrightarrow>
   html_text (richLink (pr_link loc_href t a n r)) = html_text (plainText (pr_link loc_href t a n r))"
  by (simp add: pr_link_def rich_link_of_anchor html_text_anchor html_text_close_tag)

subsection \<open>Properties of the formatter\<close>

text \<open>
  C13: Round trip of the markup. The rich link is an anchor whose attribute is the page
  URL and whose content is exactly the plain text; reading the anchor back gives both,
  provided the URL holds no double quote (a serialised \<open>location.href\<close> has it
  percent-encoded).
\<close>

theorem pr_link_roundtrip:
  assumes "CHR 0x22 \<notin> set loc_href"
  shows "parse_anchor (richLink (pr_link loc_href title author pr_number repo_info)) =
           Some (loc_href, plainText (pr_link loc_href title author pr_number repo_info))"
  using assms by (simp add: pr_link_def rich_link_of_anchor parse_anchor_open)

lemma pr_link_roundtrip_witness:
  "CHR 0x22 \<notin> set ''https://github.com/octo/hello/pull/42'' \<and>
   parse_anchor (richLink (pr_link ''https://github.com/octo/hello/pull/42'' ''Fix bug''
       ''alice'' ''#42'' (Some ''octo/hello''))) =
     Some (''https://github.com/octo/hello/pull/42'',
           plainText (pr_link ''https://github.com/octo/hello/pull/42'' ''Fix bug''
             ''alice'' ''#42'' (Some ''octo/hello'')))"
proof -
  have q: "CHR 0x22 \<notin> set ''https://github.com/octo/hello/pull/42''" by simp
  show ?thesis using pr_link_roundtrip [OF q] q by blast
qed

text \<open>
  C20: The text a rich-text consumer shows. When the URL holds no \<open>>\<close> and the plain
  text holds neither \<open><\<close> nor \<open>&\<close>, the HTML flavour pasted from the clipboard
  displays exactly the plain text.
\<close>

theorem pr_link_visible_text:
  assumes "CHR ''>'' \<notin> set loc_href"
    and "CHR ''<'' \<notin> set (plainText (pr_link loc_href title author pr_number repo_info))"
    and "CHR ''&'' \<notin> set (plainText (pr_link loc_href title author pr_number repo_info))"
  shows "html_text (richLink (pr_link loc_href title author pr_number repo_info)) =
           plainText (pr_link loc_href title author pr_number repo_info)"
  using assms by (simp add: html_text_pr_link)

lemma pr_link_visible_text_witness:
  "CHR ''>'' \<notin> set ''https://github.com/octo/hello/pull/42'' \<and>
   CHR ''<'' \<notin> set (plainText (pr_link ''https://github.com/octo/hello/pull/42''
       ''Fix bug'' ''alice'' ''#42'' (Some ''octo/hello''))) \<and>
   CHR ''&'' \<notin> set (plainText (pr_link ''https://github.com/octo/hello/pull/42''
       ''Fix bug'' ''alice'' ''#42'' (Some ''octo/hello''))) \<and>
   html_text (richLink (pr_link ''https://github.com/octo/hello/pull/42'' ''Fix bug''
       ''alice'' ''#42'' (Some ''octo/hello''))) =
     plainText (pr_link ''https://github.com/octo/hello/pull/42'' ''Fix bug''
       ''alice'' ''#42'' (Some ''octo/hello''))"
proof -
  have a: "CHR ''>'' \<notin> set ''https://github.com/octo/hello/pull/42''" by simp
  have b: "CHR ''<'' \<notin> set (plainText (pr_link ''https://github.com/octo/hello/pull/42''
       ''Fix bug'' ''alice'' ''#42'' (Some ''octo/hello'')))"
    and c: "CHR ''&'' \<notin> set (plainText (pr_link ''https://github.com/octo/hello/pull/42''
       ''Fix bug'' ''alice'' ''#42'' (Some ''octo/hello'')))"
    by (simp_all add: pr_link_def plain_text_of_def middot_def)
  show ?thesis using pr_link_visible_text [OF a b c] a b c by blast
qed

text \<open>
  C23: The fields are not escaped. Whatever the fields, the rich link shows what the plain
  text shows when parsed as HTML; so when the plain text holds the start of a tag (a
  \<open><\<close> followed by a letter, \<open>/\<close>, \<open>!\<close> or \<open>?\<close>), as in a title
  \<open>Use Vec<T>\<close>, the pasted rich link shows fewer characters than the plain text.
\<close>

theorem pr_link_markup_not_escaped:
  assumes "CHR ''>'' \<notin> set loc_href"
    and "CHR ''&'' \<notin> set (plainText (pr_link loc_href title author pr_number repo_info))"
    and "sublist [CHR ''<'', x] (plainText (pr_link loc_href title author pr_number repo_info))"
    and "tag_open x"
  shows "html_text (richLink (pr_link loc_href title author pr_number repo_info)) =
           html_text (plainText (pr_link loc_href title author pr_number repo_info)) \<and>
         length (html_text (richLink (pr_link loc_href title author pr_number repo_info))) <
           length (plainText (pr_link loc_href title author pr_number repo_info))"
  using assms by (simp add: html_text_pr_link html_text_tag_shorter)

lemma pr_link_markup_not_escaped_witness:
  "CHR ''>'' \<notin> set ''https://github.com/octo/hello/pull/7'' \<and>
   CHR ''&'' \<notin> set (plainText (pr_link ''https://github.com/octo/hello/pull/7'' ''Use Vec<T>''
      ''alice'' ''#7'' (Some ''octo/hello''))) \<and>
   sublist [CHR ''<'', CHR ''T''] (plainText (pr_link ''https://github.com/octo/hello/pull/7''
      ''Use Vec<T>'' ''alice'' ''#7'' (Some ''octo/hello''))) \<and>
   tag_open (CHR ''T'') \<and>
   html_text (richLink (pr_link ''https://github.com/octo/hello/pull/7'' ''Use Vec<T>''
      ''alice'' ''#7'' (Some ''octo/hello''))) \<noteq>
   plainText (pr_link ''https://github.com/octo/hello/pull/7'' ''Use Vec<T>''
      ''alice'' ''#7'' (Some ''octo/hello''))"
proof -
  let ?l = "pr_link ''https://github.com/octo/hello/pull/7'' ''Use Vec<T>'' ''alice'' ''#7''
      (Some ''octo/hello'')"
  have a: "CHR ''>'' \<notin> set ''https://github.com/octo/hello/pull/7''" by simp
  have b: "CHR ''&'' \<notin> set (plainText ?l)"
    by (simp add: pr_link_def plain_text_of_def middot_def)
  have c: "sublist [CHR ''<'', CHR ''T''] (plainText ?l)"
    by (simp add: pr_link_def plain_text_of_def sublist_Cons_right)
  have d: "tag_open (CHR ''T'')" by (simp add: tag_open_def)
  show ?thesis using pr_link_markup_not_escaped [OF a b c d] a b c d by auto
qed

end
