(* ===== verification/Extractor.thy ===== *)
theory Extractor
  imports Page Formatter
begin

text \<open>
  The page-data extractor: \<open>getRepoInfo\<close> (content.js lines 1--13) and
  \<open>generatePRLink\<close> (lines 15--47), which reads the three header elements, trims their
  text, asks \<open>getRepoInfo\<close> for the repository and hands everything to the formatter.
  A thrown \<open>Error\<close> is an \<open>Inl\<close> value; the \<open>try\<close>/\<open>catch\<close> of
  \<open>generatePRLink\<close> only logs and rethrows, so it is the identity on results. The
  lemmas give the result on every branch, the URL fallback for the repository slug, and
  when the summary's fields are non-empty.
\<close>

definition get_repo_info :: "page \<Rightarrow> js_nullable_string js_result" where
  "get_repo_info p =
     (case meta_nwo p of
        Some content \<Rightarrow> Inr content
      | None \<Rightarrow>
          (let url_parts = js_split CHR ''/'' (pathname p) in
           if 3 \<le> length url_parts
           then Inr (Some (url_parts ! 1 @ ''/'' @ url_parts ! 2))
           else Inl (Error ''Could not find repo info'')))"

definition generate_pr_link :: "page \<Rightarrow> link_payload js_result" where
  "generate_pr_link p =
     (case (issue_title p, author_el p, header_number p) of
        (Some title_text, Some author_text, Some number_text) \<Rightarrow>
          (let title = js_trim title_text; author = js_trim author_text;
               pr_number = js_trim number_text in
           case get_repo_info p of
             Inl e \<Rightarrow> Inl e
           | Inr repo_info \<Rightarrow> Inr (pr_link (href p) title author pr_number repo_info))
      | _ \<Rightarrow> Inl (Error ''Could not find required PR elements''))"

text \<open>What \<open>generatePRLink\<close> writes to the console: the four \<open>console.log\<close>s of
  lines 17--26, then either the two of lines 37 and 40, or, when a required element is
  missing or \<open>getRepoInfo\<close> throws, the \<open>console.error\<close> of its \<open>catch\<close> (line 44).
  \<open>trim\<close> cannot throw: \<open>textContent\<close> of an element is a string.\<close>

definition generate_pr_link_log :: "page \<Rightarrow> console_entry list" where
  "generate_pr_link_log p =
     [ConsoleLog ''Generating PR link...'', ConsoleLog ''Title element:'',
      ConsoleLog ''Author element:'', ConsoleLog ''Number element:''] @
     (case (issue_title p, author_el p, header_number p) of
        (Some _, Some _, Some _) \<Rightarrow>
          (case get_repo_info p of
             Inl _ \<Rightarrow> [ConsoleError ''Error generating PR link:'']
           | Inr _ \<Rightarrow> [ConsoleLog ''Generated info:'', ConsoleLog ''Rich link:''])
      | _ \<Rightarrow> [ConsoleError ''Error generating PR link:''])"

subsection \<open>The branches of getRepoInfo\<close>

lemma get_repo_info_meta: "meta_nwo p = Some c \<Longrightarrow> get_repo_info p = Inr c"
  by (simp add: get_repo_info_def)

text \<open>A path \<open>/owner/repo\<close> or \<open>/owner/repo/\<dots>\<close> splits into \<open>""\<close>, the owner,
  the repository and the rest.\<close>

definition repo_path :: "js_string \<Rightarrow> js_string \<Rightarrow> js_string \<Rightarrow> bool" where
  "repo_path path owner repo \<longleftrightarrow>
     CHR ''/'' \<notin> set owner \<and> CHR ''/'' \<notin> set repo \<and>
     (path = ''/'' @ owner @ ''/'' @ repo \<or> prefix (''/'' @ owner @ ''/'' @ repo @ ''/'') path)"

lemma js_split_repo_path:
  assumes "repo_path path owner repo"
  shows "\<exists>more. js_split CHR ''/'' path = [] # owner # repo # more"
proof -
  from assms have o: "CHR ''/'' \<notin> set owner" and r: "CHR ''/'' \<notin> set repo"
    by (auto simp: repo_path_def)
  from assms consider "path = ''/'' @ owner @ ''/'' @ repo"
    | rest where "path = ''/'' @ owner @ ''/'' @ repo @ ''/'' @ rest"
    by (auto simp: repo_path_def prefix_def)
  then show ?thesis
  proof cases
    case 1
    with o r show ?thesis
      using js_split_sep_append [of "CHR ''/''" "[]" "owner @ ''/'' @ repo"] by simp
  next
    case (2 rest)
    with o r show ?thesis
      using js_split_sep_append [of "CHR ''/''" "[]" "owner @ ''/'' @ repo @ ''/'' @ rest"]
      by simp
  qed
qed

lemma get_repo_info_error_iff:
  "get_repo_info p = Inl e \<longleftrightarrow>
     meta_nwo p = None \<and> count_list (pathname p) CHR ''/'' < 2 \<and>
     e = Error ''Could not find repo info''"
  by (auto simp: get_repo_info_def Let_def length_js_split split: option.split)

lemma generate_pr_link_found:
  assumes "issue_title p = Some t" and "author_el p = Some a" and "header_number p = Some n"
  shows "generate_pr_link p =
           (case get_repo_info p of Inl e \<Rightarrow> Inl e
            | Inr r \<Rightarrow> Inr (pr_link (href p) (js_trim t) (js_trim a) (js_trim n) r))"
  using assms by (simp add: generate_pr_link_def)

text \<open>Notifications in the body do not change what is extracted.\<close>

lemma get_repo_info_toasts [simp]: "get_repo_info (p\<lparr>toasts := ts\<rparr>) = get_repo_info p"
  by (simp add: get_repo_info_def split: option.split)

lemma generate_pr_link_toasts [simp]:
  "generate_pr_link (p\<lparr>toasts := ts\<rparr>) = generate_pr_link p"
  by (simp add: generate_pr_link_def Let_def split: option.split sum.split)

lemma js_trim_nonempty: "\<not> list_all is_js_space s \<Longrightarrow> js_trim s \<noteq> []"
  by (simp add: js_trim_Nil_iff list_all_iff)

subsection \<open>Properties of the extractor\<close>

text \<open>
  C5: Repository from the URL. Without the meta element, on a path
  \<open>/owner/repo\<close> or \<open>/owner/repo/\<dots>\<close>, the repository slug is the first two path
  segments joined by \<open>/\<close>.
\<close>

theorem get_repo_info_from_path:
  assumes "meta_nwo p = None" and "repo_path (pathname p) owner repo"
  shows "get_repo_info p = Inr (Some (owner @ ''/'' @ repo))"
proof -
  obtain more where "js_split CHR ''/'' (pathname p) = [] # owner # repo # more"
    using js_split_repo_path [OF assms(2)] by blast
  with assms(1) show ?thesis by (simp add: get_repo_info_def)
qed

lemma get_repo_info_from_path_witness:
  "meta_nwo (example_pr_page\<lparr>meta_nwo := None\<rparr>) = None \<and>
   repo_path (pathname (example_pr_page\<lparr>meta_nwo := None\<rparr>)) ''octo'' ''hello'' \<and>
   get_repo_info (example_pr_page\<lparr>meta_nwo := None\<rparr>) = Inr (Some ''octo/hello'')"
proof -
  have m: "meta_nwo (example_pr_page\<lparr>meta_nwo := None\<rparr>) = None" by simp
  have r: "repo_path (pathname (example_pr_page\<lparr>meta_nwo := None\<rparr>)) ''octo'' ''hello''"
    by (simp add: repo_path_def example_pr_page_def prefix_def)
  show ?thesis using get_repo_info_from_path [OF m r] m r by simp
qed

text \<open>
  C14: Missing elements. When any of the title, author or number elements is absent,
  \<open>generatePRLink\<close> throws \<open>Error("Could not find required PR elements")\<close>, before
  the repository is looked up.
\<close>

theorem generate_pr_link_missing:
  assumes "issue_title p = None \<or> author_el p = None \<or> header_number p = None"
  shows "generate_pr_link p = Inl (Error ''Could not find required PR elements'')"
  using assms by (auto simp: generate_pr_link_def split: option.split)

lemma generate_pr_link_missing_witness:
  "(issue_title (example_pr_page\<lparr>author_el := None\<rparr>) = None \<or>
    author_el (example_pr_page\<lparr>author_el := None\<rparr>) = None \<or>
    header_number (example_pr_page\<lparr>author_el := None\<rparr>) = None) \<and>
   generate_pr_link (example_pr_page\<lparr>author_el := None\<rparr>) =
     Inl (Error ''Could not find required PR elements'')"
  using generate_pr_link_missing [of "example_pr_page\<lparr>author_el := None\<rparr>"] by simp

text \<open>
  C19: When the repository cannot be determined. \<open>getRepoInfo\<close> throws
  \<open>Error("Could not find repo info")\<close> exactly when the meta element is absent and the
  path has fewer than two slashes; it throws nothing else.
\<close>

theorem get_repo_info_error:
  "get_repo_info p = Inl e \<longleftrightarrow>
     meta_nwo p = None \<and> count_list (pathname p) CHR ''/'' < 2 \<and>
     e = Error ''Could not find repo info''"
  by (auto simp: get_repo_info_def Let_def length_js_split split: option.split)

text \<open>
  C18: Extraction succeeds with non-empty fields on a well-formed page: the three
  elements present with some non-blank text, and the repository given by a non-empty
  meta attribute or by the URL. Each field is the element's text with white space
  trimmed.
\<close>

theorem generate_pr_link_fields_nonempty:
  assumes "issue_title p = Some t" and "author_el p = Some a" and "header_number p = Some n"
    and "\<not> list_all is_js_space t" and "\<not> list_all is_js_space a"
    and "\<not> list_all is_js_space n"
    and "meta_nwo p = None \<and> repo_path (pathname p) owner repo \<or>
         (\<exists>c. meta_nwo p = Some (Some c) \<and> c \<noteq> [])"
  shows "\<exists>slug. generate_pr_link p =
            Inr (pr_link (href p) (js_trim t) (js_trim a) (js_trim n) (Some slug)) \<and>
          js_trim t \<noteq> [] \<and> js_trim a \<noteq> [] \<and> js_trim n \<noteq> [] \<and> slug \<noteq> []"
proof -
  from assms(7) obtain slug where "get_repo_info p = Inr (Some slug)" and "slug \<noteq> []"
    by (auto dest: get_repo_info_from_path get_repo_info_meta)
  with assms(1-6) show ?thesis
    by (intro exI [of _ slug]) (simp add: generate_pr_link_found js_trim_nonempty)
qed

lemma generate_pr_link_fields_nonempty_witness:
  "issue_title example_pr_page = Some ''\<newline>    Fix bug\<newline>  '' \<and>
   author_el example_pr_page = Some ''alice'' \<and> header_number example_pr_page = Some '' #42'' \<and>
   \<not> list_all is_js_space ''\<newline>    Fix bug\<newline>  '' \<and> \<not> list_all is_js_space ''alice'' \<and>
   \<not> list_all is_js_space '' #42'' \<and>
   (meta_nwo example_pr_page = None \<and> repo_path (pathname example_pr_page) ''octo'' ''hello'' \<or>
    (\<exists>c. meta_nwo example_pr_page = Some (Some c) \<and> c \<noteq> [])) \<and>
   (\<exists>slug. generate_pr_link example_pr_page =
      Inr (pr_link (href example_pr_page) (js_trim ''\<newline>    Fix bug\<newline>  '') (js_trim ''alice'')
             (js_trim '' #42'') (Some slug)) \<and>
      js_trim ''\<newline>    Fix bug\<newline>  '' \<noteq> [] \<and> js_trim ''alice'' \<noteq> [] \<and>
      js_trim '' #42'' \<noteq> [] \<and> slug \<noteq> [])"
proof -
  have h: "issue_title example_pr_page = Some ''\<newline>    Fix bug\<newline>  ''"
    "author_el example_pr_page = Some ''alice''" "header_number example_pr_page = Some '' #42''"
    "\<not> list_all is_js_space ''\<newline>    Fix bug\<newline>  ''" "\<not> list_all is_js_space ''alice''"
    "\<not> list_all is_js_space '' #42''"
    "meta_nwo example_pr_page = None \<and> repo_path (pathname example_pr_page) ''octo'' ''hello'' \<or>
     (\<exists>c. meta_nwo example_pr_page = Some (Some c) \<and> c \<noteq> [])"
    by (simp_all add: example_pr_page_def is_js_space_def)
  show ?thesis using generate_pr_link_fields_nonempty [OF h] h by blast
qed

text \<open>
  C28: A meta element without a \<open>content\<close> attribute. On every page with the three
  header elements whose meta element has no \<open>content\<close>, \<open>getAttribute\<close> returns
  \<open>null\<close>, \<open>getRepoInfo\<close> returns it without falling back to the URL (whatever the
  path), and the link text ends in \<open>" \<middot> null"\<close> where the repository belongs; no
  \<open>ExtractionError\<close> is raised.
\<close>

theorem generate_pr_link_null_repo:
  assumes "meta_nwo p = Some None" and "issue_title p = Some t" and "author_el p = Some a"
    and "header_number p = Some n"
  shows "generate_pr_link p = Inr (pr_link (href p) (js_trim t) (js_trim a) (js_trim n) None) \<and>
         suffix (middot # '' null'') (plainText (pr_link (href p) (js_trim t) (js_trim a) (js_trim n) None))"
proof -
  have "plainText (pr_link (href p) (js_trim t) (js_trim a) (js_trim n) None) =
      (js_trim t @ '' by '' @ js_trim a @ '' '' @ middot # '' '' @ js_trim n @ '' '') @
      middot # '' null''"
    by (simp add: pr_link_def plain_text_of_def)
  then show ?thesis using assms
    by (simp add: generate_pr_link_found get_repo_info_meta suffixI)
qed

lemma generate_pr_link_null_repo_witness:
  "meta_nwo (example_pr_page\<lparr>meta_nwo := Some None\<rparr>) = Some None \<and>
   issue_title (example_pr_page\<lparr>meta_nwo := Some None\<rparr>) = Some ''\<newline>    Fix bug\<newline>  '' \<and>
   author_el (example_pr_page\<lparr>meta_nwo := Some None\<rparr>) = Some ''alice'' \<and>
   header_number (example_pr_page\<lparr>meta_nwo := Some None\<rparr>) = Some '' #42'' \<and>
   generate_pr_link (example_pr_page\<lparr>meta_nwo := Some None\<rparr>) =
     Inr (pr_link ''https://github.com/octo/hello/pull/42'' ''Fix bug'' ''alice'' ''#42'' None)"
proof -
  let ?p = "example_pr_page\<lparr>meta_nwo := Some None\<rparr>"
  have h: "meta_nwo ?p = Some None" "issue_title ?p = Some ''\<newline>    Fix bug\<newline>  ''"
    "author_el ?p = Some ''alice''" "header_number ?p = Some '' #42''"
    by (simp_all add: example_pr_page_def)
  show ?thesis using generate_pr_link_null_repo [OF h] h
    by (simp add: example_pr_page_def js_trim_def is_js_space_def)
qed

text \<open>
  C29: Blank elements are accepted. The script checks that the three elements exist,
  not that their text is non-empty: a title element holding only white space yields a
  link whose title is the empty string, so its text starts with \<open>" by "\<close>.
\<close>

theorem generate_pr_link_blank_title:
  assumes "issue_title p = Some t" and "\<forall>c\<in>set t. is_js_space c"
    and "author_el p = Some a" and "header_number p = Some n" and "get_repo_info p = Inr r"
  shows "generate_pr_link p = Inr (pr_link (href p) [] (js_trim a) (js_trim n) r) \<and>
         prefix '' by '' (plainText (pr_link (href p) [] (js_trim a) (js_trim n) r))"
proof -
  have "js_trim t = []" using assms(2) by (simp add: js_trim_Nil_iff)
  then show ?thesis using assms
    by (simp add: generate_pr_link_found pr_link_def plain_text_of_def)
qed

lemma generate_pr_link_blank_title_witness:
  "issue_title (example_pr_page\<lparr>issue_title := Some ''\<newline>   ''\<rparr>) = Some ''\<newline>   '' \<and>
   list_all is_js_space ''\<newline>   '' \<and>
   author_el (example_pr_page\<lparr>issue_title := Some ''\<newline>   ''\<rparr>) = Some ''alice'' \<and>
   header_number (example_pr_page\<lparr>issue_title := Some ''\<newline>   ''\<rparr>) = Some '' #42'' \<and>
   get_repo_info (example_pr_page\<lparr>issue_title := Some ''\<newline>   ''\<rparr>) = Inr (Some ''octo/hello'') \<and>
   generate_pr_link (example_pr_page\<lparr>issue_title := Some ''\<newline>   ''\<rparr>) =
     Inr (pr_link ''https://github.com/octo/hello/pull/42'' [] ''alice'' ''#42'' (Some ''octo/hello''))"
proof -
  let ?p = "example_pr_page\<lparr>issue_title := Some ''\<newline>   ''\<rparr>"
  have h: "issue_title ?p = Some ''\<newline>   ''" "\<forall>c\<in>set ''\<newline>   ''. is_js_space c"
    "author_el ?p = Some ''alice''" "header_number ?p = Some '' #42''"
    "get_repo_info ?p = Inr (Some ''octo/hello'')"
    by (simp_all add: example_pr_page_def is_js_space_def get_repo_info_def)
  show ?thesis using generate_pr_link_blank_title [OF h] h
    by (simp add: example_pr_page_def js_trim_def is_js_space_def list_all_iff)
qed

subsection \<open>Console output of the extractor\<close>

text \<open>
  C36: Every throw is logged, and only throws. \<open>generatePRLink\<close> logs its four
  element lines, then \<open>"Error generating PR link:"\<close> with \<open>console.error\<close> exactly
  when it throws, and the two success lines exactly when it returns a link.
\<close>

theorem generate_pr_link_log_result:
  "generate_pr_link_log p =
     [ConsoleLog ''Generating PR link...'', ConsoleLog ''Title element:'',
      ConsoleLog ''Author element:'', ConsoleLog ''Number element:''] @
     (case generate_pr_link p of
        Inl _ \<Rightarrow> [ConsoleError ''Error generating PR link:'']
      | Inr _ \<Rightarrow> [ConsoleLog ''Generated info:'', ConsoleLog ''Rich link:''])"
  by (simp add: generate_pr_link_log_def generate_pr_link_def Let_def
      split: option.split sum.split)

end
