(* ===== verification/Clipboard.thy ===== *)
theory Clipboard
  imports Page
begin

text \<open>
  The clipboard writer \<open>copyToClipboard\<close> (content.js lines 49--73). What the browser
  offers is the environment \<open>clip_env\<close>: whether \<open>navigator.clipboard\<close> exists,
  whether its \<open>write\<close> and \<open>writeText\<close> methods exist and, if so, whether the
  promise each returns is fulfilled or rejected (permission, focus, user gesture), and
  whether the global \<open>ClipboardItem\<close> is defined. The result is what the call
  produces, a synchronous throw or a promise that settles with a message or an error,
  together with the clipboard calls it made, in order, each with its success. The
  lemmas show the fallback order of the source: the plain-text write happens exactly
  when the rich write was rejected, at most one of each is made, and the message the
  promise yields matches what ends up on the clipboard.
\<close>

record clipboard_api =
  write_fn :: "bool option"       \<comment> \<open>\<open>clipboard.write\<close>: absent, or whether its promise is fulfilled\<close>
  write_text_fn :: "bool option"  \<comment> \<open>\<open>clipboard.writeText\<close>: the same\<close>

record clip_env =
  nav_clipboard :: "clipboard_api option"  \<comment> \<open>\<open>navigator.clipboard\<close>\<close>
  clipboard_item_defined :: bool           \<comment> \<open>the global \<open>ClipboardItem\<close> exists\<close>

text \<open>A synchronous throw, or the promise's settled value (\<open>Inl\<close>: rejected).\<close>

datatype copy_outcome = Thrown js_error | Settled "js_error + js_string"

text \<open>A throw inside a \<open>.catch\<close> callback rejects the promise the call returned.\<close>

primrec settle :: "copy_outcome \<Rightarrow> js_error + js_string" where
  "settle (Thrown e) = Inl e"
| "settle (Settled r) = r"

datatype clip_call = WriteHtml js_string bool | WriteText js_string bool

definition rich_ok_msg :: js_string where
  "rich_ok_msg = ''Rich text link copied to clipboard!''"

definition plain_ok_msg :: js_string where
  "plain_ok_msg = ''Plain text link copied to clipboard.''"

definition copy_failed_msg :: js_string where
  "copy_failed_msg = ''Failed to copy. Please copy manually.''"

text \<open>The engine's errors; their wording differs between engines.\<close>

definition no_clipboard_error :: js_error where
  "no_clipboard_error = TypeError ''undefined is not an object (evaluating navigator.clipboard.writeText)''"

definition no_write_text_error :: js_error where
  "no_write_text_error = TypeError ''navigator.clipboard.writeText is not a function''"

definition no_clipboard_item_error :: js_error where
  "no_clipboard_item_error = ReferenceError ''Can't find variable: ClipboardItem''"

text \<open>\<open>navigator.clipboard.writeText(plainText).then(\<dots>).catch(\<dots>)\<close>, the plain-text
  chain that appears twice in the source (lines 58--63 and 66--71), for an existing
  \<open>navigator.clipboard\<close>.\<close>

definition write_plain :: "clipboard_api \<Rightarrow> js_string \<Rightarrow> copy_outcome \<times> clip_call list" where
  "write_plain api plain_text =
     (case write_text_fn api of
        None \<Rightarrow> (Thrown no_write_text_error, [])
      | Some ok \<Rightarrow>
          (Settled (if ok then Inr plain_ok_msg else Inl (Error copy_failed_msg)),
           [WriteText plain_text ok]))"

definition copy_to_clipboard ::
  "clip_env \<Rightarrow> js_string \<Rightarrow> js_string \<Rightarrow> copy_outcome \<times> clip_call list" where
  "copy_to_clipboard env rich_link plain_text =
     (case nav_clipboard env of
        None \<Rightarrow> (Thrown no_clipboard_error, [])
      | Some api \<Rightarrow>
          (case write_fn api of
             Some write_ok \<Rightarrow>
               if \<not> clipboard_item_defined env then (Thrown no_clipboard_item_error, [])
               else if write_ok then (Settled (Inr rich_ok_msg), [WriteHtml rich_link True])
               else (case write_plain api plain_text of
                       (r, calls) \<Rightarrow> (Settled (settle r), WriteHtml rich_link False # calls))
           | None \<Rightarrow> write_plain api plain_text))"

text \<open>What \<open>copyToClipboard\<close> writes to the console: one \<open>console.error\<close> in each
  \<open>.catch\<close> that runs (lines 57, 61 and 69). The argument the callbacks receive is the
  rejection reason, which the model does not carry. A synchronous throw logs nothing.\<close>

definition write_plain_log :: "clipboard_api \<Rightarrow> js_string \<Rightarrow> console_entry list" where
  "write_plain_log api label =
     (case write_text_fn api of None \<Rightarrow> [] | Some ok \<Rightarrow> if ok then [] else [ConsoleError label])"

definition copy_to_clipboard_log :: "clip_env \<Rightarrow> console_entry list" where
  "copy_to_clipboard_log env =
     (case nav_clipboard env of
        None \<Rightarrow> []
      | Some api \<Rightarrow>
          (case write_fn api of
             Some write_ok \<Rightarrow>
               if \<not> clipboard_item_defined env \<or> write_ok then []
               else ConsoleError ''Failed to copy rich text:'' #
                      write_plain_log api ''Failed to copy plain text:''
           | None \<Rightarrow> write_plain_log api ''Failed to copy text:''))"

text \<open>The system clipboard after a sequence of calls: each successful write replaces
  its content (last writer wins).\<close>

fun apply_calls :: "clip_call list \<Rightarrow> clip_content option \<Rightarrow> clip_content option" where
  "apply_calls [] c = c"
| "apply_calls (WriteHtml s ok # cs) c = apply_calls cs (if ok then Some (ClipHtml s) else c)"
| "apply_calls (WriteText s ok # cs) c = apply_calls cs (if ok then Some (ClipText s) else c)"

fun is_text_call :: "clip_call \<Rightarrow> bool" where
  "is_text_call (WriteText _ _) = True"
| "is_text_call (WriteHtml _ _) = False"

fun failed_call :: "clip_call \<Rightarrow> bool" where
  "failed_call (WriteHtml _ ok) = (\<not> ok)"
| "failed_call (WriteText _ ok) = (\<not> ok)"

fun is_console_error :: "console_entry \<Rightarrow> bool" where
  "is_console_error (ConsoleError _) = True"
| "is_console_error (ConsoleLog _) = False"

lemmas clipboard_defs = copy_to_clipboard_def write_plain_def

lemma messages_distinct [simp]:
  "rich_ok_msg \<noteq> plain_ok_msg" "plain_ok_msg \<noteq> rich_ok_msg"
  "copy_failed_msg \<noteq> rich_ok_msg" "copy_failed_msg \<noteq> plain_ok_msg"
  by (simp_all add: rich_ok_msg_def plain_ok_msg_def copy_failed_msg_def)

subsection \<open>Properties of the clipboard writer\<close>

text \<open>A browser with the full asynchronous clipboard API, whose writes succeed.\<close>

definition full_api :: clip_env where
  "full_api = \<lparr>nav_clipboard = Some \<lparr>write_fn = Some True, write_text_fn = Some True\<rparr>,
               clipboard_item_defined = True\<rparr>"

text \<open>
  C4: Rich copy succeeds. When \<open>clipboard.write\<close> exists and its promise is
  fulfilled, the one call made is the HTML write, the promise yields the rich-success
  message, and no plain-text write is attempted.
\<close>

theorem copy_rich_success:
  assumes "nav_clipboard env = Some api" and "write_fn api = Some True"
    and "clipboard_item_defined env"
  shows "copy_to_clipboard env rich_link plain_text =
           (Settled (Inr rich_ok_msg), [WriteHtml rich_link True])"
  using assms by (simp add: copy_to_clipboard_def)

lemma copy_rich_success_witness:
  "nav_clipboard full_api = Some \<lparr>write_fn = Some True, write_text_fn = Some True\<rparr> \<and>
   write_fn \<lparr>write_fn = Some True, write_text_fn = Some True\<rparr> = Some True \<and>
   clipboard_item_defined full_api \<and>
   copy_to_clipboard full_api ''<a href=\"u\">t</a>'' ''t'' =
     (Settled (Inr rich_ok_msg), [WriteHtml ''<a href=\"u\">t</a>'' True])"
  using copy_rich_success [of full_api "\<lparr>write_fn = Some True, write_text_fn = Some True\<rparr>"]
  by (simp add: full_api_def)

text \<open>
  C3: Fallback after a rejected rich write. When the HTML write is rejected and
  \<open>writeText\<close> exists, exactly one plain-text write follows the rich attempt, and the
  promise yields the plain-success message or the error \<open>"Failed to copy. Please copy
  manually."\<close> according to its outcome.
\<close>

theorem copy_rich_rejected:
  assumes "nav_clipboard env = Some api" and "write_fn api = Some False"
    and "clipboard_item_defined env" and "write_text_fn api = Some ok"
  shows "copy_to_clipboard env rich_link plain_text =
           (Settled (if ok then Inr plain_ok_msg else Inl (Error copy_failed_msg)),
            [WriteHtml rich_link False, WriteText plain_text ok])"
  using assms by (simp add: clipboard_defs)

lemma copy_rich_rejected_witness:
  "nav_clipboard (full_api\<lparr>nav_clipboard := Some \<lparr>write_fn = Some False, write_text_fn = Some False\<rparr>\<rparr>)
     = Some \<lparr>write_fn = Some False, write_text_fn = Some False\<rparr> \<and>
   write_fn \<lparr>write_fn = Some False, write_text_fn = Some False\<rparr> = Some False \<and>
   clipboard_item_defined (full_api\<lparr>nav_clipboard := Some \<lparr>write_fn = Some False, write_text_fn = Some False\<rparr>\<rparr>) \<and>
   write_text_fn \<lparr>write_fn = Some False, write_text_fn = Some False\<rparr> = Some False \<and>
   copy_to_clipboard
     (full_api\<lparr>nav_clipboard := Some \<lparr>write_fn = Some False, write_text_fn = Some False\<rparr>\<rparr>)
     ''<a href=\"u\">t</a>'' ''t'' =
     (Settled (Inl (Error copy_failed_msg)), [WriteHtml ''<a href=\"u\">t</a>'' False, WriteText ''t'' False])"
  using copy_rich_rejected
    [of "full_api\<lparr>nav_clipboard := Some \<lparr>write_fn = Some False, write_text_fn = Some False\<rparr>\<rparr>"
        "\<lparr>write_fn = Some False, write_text_fn = Some False\<rparr>" False]
  by (simp add: full_api_def)

text \<open>
  C15: The message tells the truth. If the promise yields the rich-success message the
  clipboard holds the HTML; if it yields the plain-success message it holds the plain
  text; if the call throws or the promise is rejected the clipboard is as before. In
  every case at most two writes are made and at most one of them is a plain-text write.
\<close>

theorem copy_message_truthful:
  assumes "copy_to_clipboard env rich_link plain_text = (out, calls)"
  shows "(out = Settled (Inr rich_ok_msg) \<longrightarrow> apply_calls calls c = Some (ClipHtml rich_link)) \<and>
         (out = Settled (Inr plain_ok_msg) \<longrightarrow> apply_calls calls c = Some (ClipText plain_text)) \<and>
         ((\<exists>e. out = Thrown e \<or> out = Settled (Inl e)) \<longrightarrow> apply_calls calls c = c) \<and>
         length calls \<le> 2 \<and> length (filter is_text_call calls) \<le> 1"
  using assms
  by (auto simp: clipboard_defs split: option.splits if_splits)

lemma copy_message_truthful_witness:
  "copy_to_clipboard full_api ''<a href=\"u\">t</a>'' ''t'' =
     (Settled (Inr rich_ok_msg), [WriteHtml ''<a href=\"u\">t</a>'' True]) \<and>
   apply_calls [WriteHtml ''<a href=\"u\">t</a>'' True] None = Some (ClipHtml ''<a href=\"u\">t</a>'')"
proof -
  have eq: "copy_to_clipboard full_api ''<a href=\"u\">t</a>'' ''t'' =
     (Settled (Inr rich_ok_msg), [WriteHtml ''<a href=\"u\">t</a>'' True])"
    by (simp add: copy_to_clipboard_def full_api_def)
  show ?thesis using copy_message_truthful [OF eq, of None] eq by simp
qed

text \<open>
  C24: No clipboard API. When \<open>navigator.clipboard\<close> is undefined, the \<open>else\<close>
  branch calls \<open>navigator.clipboard.writeText\<close> and the engine throws a
  \<open>TypeError\<close> synchronously: no promise, no write, and not the
  \<open>"Failed to copy"\<close> error the specification describes for this case.
\<close>

theorem copy_no_clipboard_throws:
  assumes "nav_clipboard env = None"
  shows "copy_to_clipboard env rich_link plain_text = (Thrown no_clipboard_error, [])"
  using assms by (simp add: copy_to_clipboard_def)

lemma copy_no_clipboard_throws_witness:
  "nav_clipboard (full_api\<lparr>nav_clipboard := None\<rparr>) = None \<and>
   copy_to_clipboard (full_api\<lparr>nav_clipboard := None\<rparr>) ''r'' ''p'' =
     (Thrown no_clipboard_error, [])"
  using copy_no_clipboard_throws [of "full_api\<lparr>nav_clipboard := None\<rparr>"] by simp

text \<open>
  C32: No \<open>ClipboardItem\<close>. When \<open>clipboard.write\<close> exists but the global
  \<open>ClipboardItem\<close> does not, \<open>new ClipboardItem(\<dots>)\<close> throws a
  \<open>ReferenceError\<close> synchronously: no write is made, and the plain-text fallback is
  not tried even though \<open>writeText\<close> is available.
\<close>

theorem copy_no_clipboard_item_throws:
  assumes "nav_clipboard env = Some api" and "write_fn api = Some ok"
    and "\<not> clipboard_item_defined env"
  shows "copy_to_clipboard env rich_link plain_text = (Thrown no_clipboard_item_error, [])"
  using assms by (simp add: copy_to_clipboard_def)

lemma copy_no_clipboard_item_throws_witness:
  "nav_clipboard (full_api\<lparr>clipboard_item_defined := False\<rparr>) =
     Some \<lparr>write_fn = Some True, write_text_fn = Some True\<rparr> \<and>
   write_fn \<lparr>write_fn = Some True, write_text_fn = Some True\<rparr> = Some True \<and>
   \<not> clipboard_item_defined (full_api\<lparr>clipboard_item_defined := False\<rparr>) \<and>
   copy_to_clipboard (full_api\<lparr>clipboard_item_defined := False\<rparr>) ''r'' ''p'' =
     (Thrown no_clipboard_item_error, [])"
  using copy_no_clipboard_item_throws
    [of "full_api\<lparr>clipboard_item_defined := False\<rparr>" "\<lparr>write_fn = Some True, write_text_fn = Some True\<rparr>" True]
  by (simp add: full_api_def)

text \<open>
  C37: Rejections are logged one for one. The console output of
  \<open>copyToClipboard\<close> consists of \<open>console.error\<close> lines only, one for each clipboard
  write whose promise was rejected, and nothing for a write that succeeded.
\<close>

theorem copy_to_clipboard_log_failures:
  "list_all is_console_error (copy_to_clipboard_log env) \<and>
   length (copy_to_clipboard_log env) =
     length (filter failed_call (snd (copy_to_clipboard env rich_link plain_text)))"
  by (auto simp: copy_to_clipboard_log_def write_plain_log_def clipboard_defs
      split: option.split)

end
