(* ===== verification/Notification.thy ===== *)
theory Notification
  imports Page
begin

text \<open>
  The notification presenter \<open>showNotification\<close> (content.js lines 75--95) and the two
  timer callbacks it schedules. Showing a message appends a fixed-position \<open>div\<close> to
  \<open>document.body\<close> (a \<open>childList\<close> mutation) and queues the fade timer, due 3000 ms
  later; the fade sets the opacity to 0 (a style change, which the observers, watching
  \<open>childList\<close> only, do not see) and queues the removal timer, due 500 ms later; the
  removal detaches the element. The lemmas show that each call adds exactly one new
  element, that no messages are merged, and that the fade and removal timers of a
  message leave the page as it was before the message was shown.
\<close>

definition show_notification :: "js_string \<Rightarrow> browser \<Rightarrow> browser" where
  "show_notification message b =
     (let n = toast_counter b;
          b1 = b\<lparr>page := (page b)\<lparr>toasts := toasts (page b) @ [Toast n message False]\<rparr>,
                 toast_counter := Suc n\<rparr>
      in set_timeout 3000 (FadeToast n) (note_child_list b1))"

text \<open>The first timer: \<open>notification.style.opacity = '0'\<close>, then the second timer.\<close>

definition fade_toast :: "nat \<Rightarrow> browser \<Rightarrow> browser" where
  "fade_toast n b =
     set_timeout 500 (RemoveToast n)
       (b\<lparr>page := (page b)\<lparr>toasts :=
          map (\<lambda>t. if toast_no t = n then Toast n (toast_msg t) True else t) (toasts (page b))\<rparr>\<rparr>)"

text \<open>The second timer: \<open>notification.remove()\<close>, a mutation only if the element is
  still in the document.\<close>

definition remove_toast :: "nat \<Rightarrow> browser \<Rightarrow> browser" where
  "remove_toast n b =
     (if \<exists>t\<in>set (toasts (page b)). toast_no t = n
      then note_child_list
             (b\<lparr>page := (page b)\<lparr>toasts := filter (\<lambda>t. toast_no t \<noteq> n) (toasts (page b))\<rparr>\<rparr>)
      else b)"

lemmas notification_defs = show_notification_def fade_toast_def remove_toast_def

text \<open>Serial numbers of the notifications in the document are below the counter.\<close>

definition toasts_fresh :: "browser \<Rightarrow> bool" where
  "toasts_fresh b \<longleftrightarrow> (\<forall>t\<in>set (toasts (page b)). toast_no t < toast_counter b)"

lemma show_notification_page:
  "page (show_notification m b) =
     (page b)\<lparr>toasts := toasts (page b) @ [Toast (toast_counter b) m False]\<rparr>"
  by (simp add: show_notification_def set_timeout_def note_child_list_def Let_def)

lemma show_notification_fields [simp]:
  "toasts (page (show_notification m b)) = toasts (page b) @ [Toast (toast_counter b) m False]"
  "toast_counter (show_notification m b) = Suc (toast_counter b)"
  "timers (show_notification m b) = timers b @ [(clock b + 3000, FadeToast (toast_counter b))]"
  "doc_ids (page (show_notification m b)) = doc_ids (page b)"
  "header_actions (page (show_notification m b)) = header_actions (page b)"
  "pathname (page (show_notification m b)) = pathname (page b)"
  "href (page (show_notification m b)) = href (page b)"
  "clipboard (show_notification m b) = clipboard b"
  "jobs (show_notification m b) = jobs b"
  "clock (show_notification m b) = clock b"
  "last_url (show_notification m b) = last_url b"
  by (simp_all add: show_notification_def set_timeout_def note_child_list_def Let_def)

lemma show_notification_fresh: "toasts_fresh b \<Longrightarrow> toasts_fresh (show_notification m b)"
  by (auto simp: toasts_fresh_def)

lemma fade_toast_fresh: "toasts_fresh b \<Longrightarrow> toasts_fresh (fade_toast n b)"
  by (auto simp: toasts_fresh_def fade_toast_def set_timeout_def)

lemma remove_toast_fresh: "toasts_fresh b \<Longrightarrow> toasts_fresh (remove_toast n b)"
  by (auto simp: toasts_fresh_def remove_toast_def note_child_list_def)

lemma fade_remove_timers [simp]:
  "timers (fade_toast n b) = timers b @ [(clock b + 500, RemoveToast n)]"
  "timers (remove_toast n b) = timers b"
  by (simp_all add: fade_toast_def remove_toast_def set_timeout_def note_child_list_def)

lemma fade_remove_keep_doc_ids [simp]:
  "doc_ids (page (fade_toast n b)) = doc_ids (page b)"
  "doc_ids (page (remove_toast n b)) = doc_ids (page b)"
  by (simp_all add: fade_toast_def remove_toast_def set_timeout_def note_child_list_def)

subsection \<open>Properties of the presenter\<close>

text \<open>
  C27: Life cycle of a notification. Showing a message appends one new element after
  the existing ones and queues its fade 3000 ms later; the fade, when it fires, sets that
  element's opacity to 0 and queues the removal 500 ms later; the removal leaves exactly
  the notifications that were there before. Other notifications are not touched.
\<close>

theorem notification_lifecycle:
  assumes "toasts_fresh b"
  shows "let b1 = show_notification m b;
             b2 = fade_toast (toast_counter b) (b1\<lparr>clock := clock b + 3000\<rparr>);
             b3 = remove_toast (toast_counter b) (b2\<lparr>clock := clock b + 3500\<rparr>)
         in toasts (page b1) = toasts (page b) @ [Toast (toast_counter b) m False] \<and>
            timers b1 = timers b @ [(clock b + 3000, FadeToast (toast_counter b))] \<and>
            toasts (page b2) = toasts (page b) @ [Toast (toast_counter b) m True] \<and>
            timers b2 = timers b1 @ [(clock b + 3500, RemoveToast (toast_counter b))] \<and>
            toasts (page b3) = toasts (page b)"
proof -
  have other: "toast_no t \<noteq> toast_counter b" if "t \<in> set (toasts (page b))" for t
    using assms that by (auto simp: toasts_fresh_def)
  then have "map (\<lambda>t. if toast_no t = toast_counter b then Toast (toast_counter b) (toast_msg t) True
                      else t) (toasts (page b)) = toasts (page b)"
    by (simp add: map_idI)
  moreover from other have "filter (\<lambda>t. toast_no t \<noteq> toast_counter b) (toasts (page b)) =
      toasts (page b)"
    by (simp add: filter_id_conv)
  ultimately show ?thesis
    by (simp add: Let_def fade_toast_def remove_toast_def set_timeout_def note_child_list_def)
qed

lemma notification_lifecycle_witness:
  "toasts_fresh (load_state example_pr_page) \<and>
   toasts (page (remove_toast 0 (fade_toast 0
      ((show_notification ''Generating PR link...'' (load_state example_pr_page))\<lparr>clock := 3000\<rparr>)
      \<lparr>clock := 3500\<rparr>))) = []"
proof -
  have f: "toasts_fresh (load_state example_pr_page)"
    by (simp add: toasts_fresh_def load_state_def example_pr_page_def)
  show ?thesis
    using notification_lifecycle [OF f, of "''Generating PR link...''"] f
    by (simp add: Let_def load_state_def example_pr_page_def)
qed

end
