(* ===== verification/Injection.thy ===== *)
theory Injection
  imports Page
begin

text \<open>
  The injection controller: \<open>addButton\<close>, \<open>checkAndAddButton\<close> and its inner
  \<open>tryAddButton\<close> (content.js lines 111--148). Each operation takes the browser state
  and returns it updated; console logging is left out. A call of
  \<open>checkAndAddButton\<close> on a PR path starts a retry chain with its own \<open>attempts\<close>
  counter: the pending \<open>setTimeout\<close> of the chain carries the counter's value
  (\<open>TryAddButton k\<close>). The lemmas show that the button is never inserted twice, that
  every operation is a no-op once the button exists, and that a chain makes at most
  \<open>maxAttempts\<close> insertion attempts whatever the page does between its timers.
\<close>

definition btn_id :: elem_id where
  "btn_id = ''copy-pr-link-btn''"

text \<open>The element \<open>addButton\<close> builds (lines 114--118).\<close>

definition pr_link_button :: elem where
  "pr_link_button = Elem ''button'' (Some btn_id) ''btn btn-sm'' ''Copy PR Link'' True"

definition add_button :: "browser \<Rightarrow> browser" where
  "add_button b =
     (case header_actions (page b) of
        Some cs \<Rightarrow>
          if \<not> get_element_by_id btn_id (page b)
          then note_child_list
                 (b\<lparr>page := (page b)\<lparr>header_actions := Some (pr_link_button # cs)\<rparr>\<rparr>)
          else b
      | None \<Rightarrow> b)"

definition max_attempts :: nat where
  "max_attempts = 10"

text \<open>One run of \<open>tryAddButton\<close> with \<open>attempts = k\<close> (lines 131--144).\<close>

definition try_add_button :: "nat \<Rightarrow> browser \<Rightarrow> browser" where
  "try_add_button k b =
     (if max_attempts \<le> k then b
      else if \<not> get_element_by_id btn_id (page b) then
        (let b' = add_button b in
         if \<not> get_element_by_id btn_id (page b')
         then set_timeout 1000 (TryAddButton (Suc k)) b'
         else b')
      else b)"

definition is_pr_path :: "js_string \<Rightarrow> bool" where
  "is_pr_path path \<longleftrightarrow> js_includes ''/pull/'' path"

definition check_and_add_button :: "browser \<Rightarrow> browser" where
  "check_and_add_button b =
     (if is_pr_path (pathname (page b)) then try_add_button 0 b else b)"

text \<open>What the controller writes to the console: \<open>addButton\<close> logs one of two
  messages (lines 120 and 122), \<open>tryAddButton\<close> logs when it gives up (line 133) and
  otherwise logs what its \<open>addButton\<close> call logs.\<close>

definition add_button_log :: "browser \<Rightarrow> console_entry" where
  "add_button_log b =
     (if header_actions (page b) \<noteq> None \<and> \<not> get_element_by_id btn_id (page b)
      then ConsoleLog ''Button added successfully''
      else ConsoleLog ''Header actions not found or button already exists'')"

definition try_add_button_log :: "nat \<Rightarrow> browser \<Rightarrow> console_entry list" where
  "try_add_button_log k b =
     (if max_attempts \<le> k then [ConsoleLog ''Max attempts reached. Button not added.'']
      else if \<not> get_element_by_id btn_id (page b) then [add_button_log b]
      else [])"

lemmas injection_defs = add_button_def try_add_button_def check_and_add_button_def

subsection \<open>The button is inserted at most once\<close>

text \<open>The number of elements with the button's id in the document.\<close>

definition btn_count :: "page \<Rightarrow> nat" where
  "btn_count p = count_list (doc_ids p) btn_id"

text \<open>The number of buttons made by \<open>addButton\<close> in the header region. Each carries
  the button's id, so there are never more of them than elements with that id.\<close>

definition script_buttons :: "page \<Rightarrow> nat" where
  "script_buttons p =
     (case header_actions p of None \<Rightarrow> 0 | Some cs \<Rightarrow> count_list cs pr_link_button)"

lemma count_pr_link_button_le:
  "count_list cs pr_link_button \<le> count_list (List.map_filter elem_id cs) btn_id"
  by (induction cs) (auto simp: pr_link_button_def split: option.split)

lemma script_buttons_le_btn_count: "script_buttons p \<le> btn_count p"
proof (cases "header_actions p")
  case None
  then show ?thesis by (simp add: script_buttons_def)
next
  case (Some cs)
  then have "script_buttons p \<le> count_list (List.map_filter elem_id cs) btn_id"
    by (simp add: script_buttons_def count_pr_link_button_le)
  also have "\<dots> \<le> btn_count p"
    using Some by (simp add: btn_count_def doc_ids_def)
  finally show ?thesis .
qed

lemma get_element_by_id_btn_count:
  "get_element_by_id btn_id p \<longleftrightarrow> 0 < btn_count p"
  using count_list_0_iff [of "doc_ids p" btn_id]
  by (auto simp: get_element_by_id_def btn_count_def)

lemma btn_count_insert:
  "header_actions p = Some cs \<Longrightarrow>
   btn_count (p\<lparr>header_actions := Some (pr_link_button # cs)\<rparr>) = Suc (btn_count p)"
  by (simp add: btn_count_def doc_ids_prepend pr_link_button_def)

text \<open>What \<open>addButton\<close> does to the count: one button where the region exists and
  none was there, nothing otherwise.\<close>

lemma btn_count_add_button:
  "btn_count (page (add_button b)) =
     (if header_actions (page b) \<noteq> None \<and> btn_count (page b) = 0 then 1
      else btn_count (page b))"
  by (auto simp: add_button_def get_element_by_id_btn_count btn_count_insert
      split: option.split)

lemma add_button_keeps [simp]:
  "timers (add_button b) = timers b"
  "clock (add_button b) = clock b"
  "jobs (add_button b) = jobs b"
  "clipboard (add_button b) = clipboard b"
  by (simp_all add: add_button_def note_child_list_def split: option.split)

lemma add_button_present:
  "get_element_by_id btn_id (page b) \<Longrightarrow> add_button b = b"
  by (simp add: add_button_def split: option.split)

lemma add_button_found:
  "header_actions (page b) \<noteq> None \<Longrightarrow> get_element_by_id btn_id (page (add_button b))"
  by (simp add: get_element_by_id_btn_count btn_count_add_button)

lemma add_button_absent:
  "header_actions (page b) = None \<Longrightarrow> add_button b = b"
  by (simp add: add_button_def)

lemma btn_count_try_add_button:
  "btn_count (page b) \<le> 1 \<Longrightarrow> btn_count (page (try_add_button k b)) \<le> 1"
  by (simp add: try_add_button_def Let_def btn_count_add_button)

lemma btn_count_check_and_add_button:
  "btn_count (page b) \<le> 1 \<Longrightarrow> btn_count (page (check_and_add_button b)) \<le> 1"
  using btn_count_try_add_button [of b 0] by (simp add: check_and_add_button_def)

subsection \<open>The retry chain\<close>

text \<open>The timers one run of \<open>tryAddButton\<close> adds: a retry one second later, exactly
  when the run is below the attempt limit, finds no button and no header region.\<close>

lemma try_add_button_timers:
  "timers (try_add_button k b) =
     timers b @ (if k < max_attempts \<and> \<not> get_element_by_id btn_id (page b)
                    \<and> header_actions (page b) = None
                 then [(clock b + 1000, TryAddButton (Suc k))] else [])"
  by (auto simp: try_add_button_def Let_def add_button_absent add_button_found set_timeout_def)

text \<open>The counter of the retry a run of \<open>tryAddButton\<close> schedules, if it schedules one.\<close>

definition chain_next :: "nat \<Rightarrow> browser \<Rightarrow> nat option" where
  "chain_next k b =
     (case drop (length (timers b)) (timers (try_add_button k b)) of
        [(_, TryAddButton k')] \<Rightarrow> Some k'
      | _ \<Rightarrow> None)"

lemma chain_next_eq:
  "chain_next k b =
     (if k < max_attempts \<and> \<not> get_element_by_id btn_id (page b)
         \<and> header_actions (page b) = None
      then Some (Suc k) else None)"
  by (simp add: chain_next_def try_add_button_timers)

lemma chain_next_bound: "chain_next k b = Some k' \<Longrightarrow> k' = Suc k \<and> k' \<le> max_attempts"
  by (simp add: chain_next_eq split: if_splits)

text \<open>
  A chain run: the browser states seen by successive firings of the chain's timer
  (anything may happen in between). The count is the number of \<open>tryAddButton\<close>
  invocations before the chain stops rescheduling.
\<close>

fun chain_runs :: "nat \<Rightarrow> browser list \<Rightarrow> nat" where
  "chain_runs k [] = 0"
| "chain_runs k (b # bs) =
     Suc (case chain_next k b of None \<Rightarrow> 0 | Some k' \<Rightarrow> chain_runs k' bs)"

lemma chain_runs_bound: "chain_runs k bs \<le> Suc (max_attempts - k)"
proof (induction k bs rule: chain_runs.induct)
  case (1 k)
  then show ?case by simp
next
  case (2 k b bs)
  then show ?case
    by (auto simp: chain_next_eq split: option.split if_splits)
qed

text \<open>With the header region never rendered, a chain runs eleven times: ten
  insertion attempts and the final run that finds the limit reached.\<close>

lemma chain_runs_loading_page:
  "chain_runs 0 (replicate 12 (load_state example_loading_page)) = 11"
  by (simp add: numeral_eq_Suc chain_next_eq max_attempts_def get_element_by_id_def
      doc_ids_def load_state_def example_loading_page_def example_pr_page_def btn_id_def)

subsection \<open>Properties of the controller\<close>

text \<open>
  C6: Termination of the retry loop. Whatever the page does between the timers, one
  call of \<open>checkAndAddButton\<close> runs \<open>tryAddButton\<close> at most
  \<open>maxAttempts + 1\<close> times: the counter grows with every reschedule and the run that
  sees it at \<open>maxAttempts\<close> schedules nothing.
\<close>

theorem chain_runs_max: "chain_runs 0 bs \<le> Suc max_attempts"
  using chain_runs_bound [of 0 bs] by simp

text \<open>
  C17: Insertion. On a PR path whose header region is rendered and holds no button,
  \<open>checkAndAddButton\<close> prepends the button to the region and schedules no retry.
\<close>

theorem check_and_add_button_inserts:
  assumes "is_pr_path (pathname (page b))" and "header_actions (page b) = Some cs"
    and "\<not> get_element_by_id btn_id (page b)"
  shows "header_actions (page (check_and_add_button b)) = Some (pr_link_button # cs) \<and>
         timers (check_and_add_button b) = timers b"
proof -
  have "get_element_by_id btn_id (page (add_button b))"
    using assms(2) by (simp add: add_button_found)
  with assms show ?thesis
    by (simp add: check_and_add_button_def try_add_button_def add_button_def
        max_attempts_def note_child_list_def)
qed

lemma check_and_add_button_inserts_witness:
  "is_pr_path (pathname (page (load_state example_pr_page))) \<and>
   header_actions (page (load_state example_pr_page)) =
     Some [Elem ''button'' None ''btn btn-sm'' ''Edit'' False] \<and>
   \<not> get_element_by_id btn_id (page (load_state example_pr_page)) \<and>
   header_actions (page (check_and_add_button (load_state example_pr_page))) =
     Some [pr_link_button, Elem ''button'' None ''btn btn-sm'' ''Edit'' False] \<and>
   timers (check_and_add_button (load_state example_pr_page)) =
     timers (load_state example_pr_page)"
proof -
  have pr: "is_pr_path (pathname (page (load_state example_pr_page)))"
    by (simp add: is_pr_path_def load_state_def example_pr_page_def prefix_def)
  have hd: "header_actions (page (load_state example_pr_page)) =
     Some [Elem ''button'' None ''btn btn-sm'' ''Edit'' False]"
    by (simp add: load_state_def example_pr_page_def)
  have nb: "\<not> get_element_by_id btn_id (page (load_state example_pr_page))"
    by (simp add: load_state_def example_pr_page_def get_element_by_id_def doc_ids_def
        btn_id_def)
  show ?thesis
    using check_and_add_button_inserts [OF pr hd nb] pr hd nb by simp
qed

subsection \<open>The specification's state machine\<close>

text \<open>
  The specification describes the controller as a machine over \<open>NotAPRPage\<close>,
  \<open>AwaitingInjection n\<close> and \<open>Injected\<close>, with terminal failure when \<open>n\<close>
  reaches 0. A step observes whether the header region is rendered and whether the button
  exists. One run of \<open>tryAddButton\<close> with counter \<open>k\<close> is a step from
  \<open>AwaitingInjection (maxAttempts - k)\<close> to the state its result is abstracted to:
  the next retry's budget, \<open>Injected\<close> once the button exists, or \<open>GaveUp\<close>.
\<close>

datatype inj_state = NotAPRPage | AwaitingInjection nat | Injected | GaveUp

inductive inj_spec :: "inj_state \<Rightarrow> bool \<times> bool \<Rightarrow> inj_state \<Rightarrow> bool" where
  present: "inj_spec (AwaitingInjection n) (h, True) Injected"
| insert: "0 < n \<Longrightarrow> inj_spec (AwaitingInjection n) (True, False) Injected"
| retry: "0 < n \<Longrightarrow> inj_spec (AwaitingInjection n) (False, False) (AwaitingInjection (n - 1))"
| give_up: "inj_spec (AwaitingInjection 0) (h, False) GaveUp"

inductive_simps inj_spec_simps: "inj_spec (AwaitingInjection n) obs s'"

text \<open>What a run of \<open>tryAddButton\<close> observes, and the abstract state after it.\<close>

definition observe :: "browser \<Rightarrow> bool \<times> bool" where
  "observe b = (header_actions (page b) \<noteq> None, get_element_by_id btn_id (page b))"

definition chain_abs :: "nat \<Rightarrow> browser \<Rightarrow> inj_state" where
  "chain_abs k b =
     (case chain_next k b of
        Some k' \<Rightarrow> AwaitingInjection (max_attempts - k')
      | None \<Rightarrow> if get_element_by_id btn_id (page (try_add_button k b)) then Injected else GaveUp)"

text \<open>Runs of the specification's machine: a sequence of its steps, each labelled by
  what the step observes; and what a chain does over the browser states seen by its
  successive timer firings: the observations of the runs that happen, and the
  abstract state after the last of them.\<close>

inductive inj_run :: "inj_state \<Rightarrow> (bool \<times> bool) list \<Rightarrow> inj_state \<Rightarrow> bool" where
  stop: "inj_run s [] s"
| step: "inj_spec s obs s' \<Longrightarrow> inj_run s' obss s'' \<Longrightarrow> inj_run s (obs # obss) s''"

fun chain_obs :: "nat \<Rightarrow> browser list \<Rightarrow> (bool \<times> bool) list" where
  "chain_obs k [] = []"
| "chain_obs k (b # bs) =
     observe b # (case chain_next k b of None \<Rightarrow> [] | Some k' \<Rightarrow> chain_obs k' bs)"

fun chain_final :: "nat \<Rightarrow> browser list \<Rightarrow> inj_state" where
  "chain_final k [] = AwaitingInjection (max_attempts - k)"
| "chain_final k (b # bs) =
     (case chain_next k b of None \<Rightarrow> chain_abs k b | Some k' \<Rightarrow> chain_final k' bs)"

lemma try_add_button_present:
  "get_element_by_id btn_id (page b) \<Longrightarrow> try_add_button k b = b"
  by (simp add: try_add_button_def)

lemma try_add_button_limit: "max_attempts \<le> k \<Longrightarrow> try_add_button k b = b"
  by (simp add: try_add_button_def)

text \<open>One run of \<open>tryAddButton\<close> within the attempt limit is one transition of the
  specification's machine.\<close>

lemma try_add_button_refines:
  assumes "k \<le> max_attempts"
  shows "inj_spec (AwaitingInjection (max_attempts - k)) (observe b) (chain_abs k b)"
proof (cases "get_element_by_id btn_id (page b)")
  case True
  then show ?thesis
    by (simp add: inj_spec_simps observe_def chain_abs_def chain_next_eq try_add_button_def)
next
  case absent: False
  show ?thesis
  proof (cases "k < max_attempts")
    case False
    with assms have "k = max_attempts" by simp
    with absent show ?thesis
      by (simp add: inj_spec_simps observe_def chain_abs_def chain_next_eq try_add_button_def)
  next
    case below: True
    show ?thesis
    proof (cases "header_actions (page b)")
      case None
      with absent below show ?thesis
        by (simp add: inj_spec_simps observe_def chain_abs_def chain_next_eq)
    next
      case (Some cs)
      then have "get_element_by_id btn_id (page (add_button b))"
        by (simp add: add_button_found)
      with Some absent below show ?thesis
        by (simp add: inj_spec_simps observe_def chain_abs_def chain_next_eq try_add_button_def)
    qed
  qed
qed
lemma chain_runs_refine:
  "k \<le> max_attempts \<Longrightarrow>
   inj_run (AwaitingInjection (max_attempts - k)) (chain_obs k bs) (chain_final k bs) \<and>
   length (chain_obs k bs) = chain_runs k bs"
proof (induction k bs rule: chain_obs.induct)
  case (1 k)
  then show ?case by (simp add: inj_run.stop)
next
  case (2 k b bs)
  have s: "inj_spec (AwaitingInjection (max_attempts - k)) (observe b) (chain_abs k b)"
    using "2.prems" by (rule try_add_button_refines)
  show ?case
  proof (cases "chain_next k b")
    case None
    then show ?thesis using s by (simp add: inj_run.step inj_run.stop)
  next
    case (Some k')
    then have k': "k' = Suc k" "k' \<le> max_attempts" using chain_next_bound by blast+
    then have "inj_run (AwaitingInjection (max_attempts - k')) (chain_obs k' bs) (chain_final k' bs) \<and>
        length (chain_obs k' bs) = chain_runs k' bs"
      using "2.IH" Some by blast
    moreover have "chain_abs k b = AwaitingInjection (max_attempts - k')"
      using Some by (simp add: chain_abs_def)
    ultimately show ?thesis using s Some by (auto intro: inj_run.step)
  qed
qed

text \<open>
  C11: Refinement of the whole retry chain. Over any sequence of page states seen by its
  timer firings, a chain started by \<open>checkAndAddButton\<close> is a run of the
  specification's injection machine from \<open>AwaitingInjection maxAttempts\<close>: each
  \<open>tryAddButton\<close> run is one labelled step, and the runs that happen are exactly
  those counted by \<open>chain_runs\<close>.
\<close>

theorem chain_refines:
  "inj_run (AwaitingInjection max_attempts) (chain_obs 0 bs) (chain_final 0 bs) \<and>
   length (chain_obs 0 bs) = chain_runs 0 bs"
  using chain_runs_refine [of 0 bs] by simp

lemma chain_refines_witness:
  "inj_run (AwaitingInjection max_attempts) (replicate 11 (False, False)) GaveUp"
proof -
  let ?bs = "replicate 12 (load_state example_loading_page)"
  have "chain_obs 0 ?bs = replicate 11 (False, False)" "chain_final 0 ?bs = GaveUp"
    by (simp_all add: numeral_eq_Suc chain_next_eq chain_abs_def max_attempts_def observe_def
        get_element_by_id_def doc_ids_def load_state_def example_loading_page_def
        example_pr_page_def btn_id_def try_add_button_def)
  then show ?thesis using chain_refines [of ?bs] by simp
qed

subsection \<open>Console output\<close>

text \<open>
  C33: Giving up is silent. A run of \<open>tryAddButton\<close> whose counter has reached
  \<open>maxAttempts\<close> changes nothing (no notification, no retry) and only logs
  \<open>"Max attempts reached. Button not added."\<close>, whether or not the button is in the
  document by then.
\<close>

theorem try_add_button_gives_up:
  assumes "max_attempts \<le> k"
  shows "try_add_button k b = b \<and>
         try_add_button_log k b = [ConsoleLog ''Max attempts reached. Button not added.'']"
  using assms by (simp add: try_add_button_def try_add_button_log_def)

lemma try_add_button_gives_up_witness:
  "max_attempts \<le> 10 \<and>
   get_element_by_id btn_id (page (add_button (load_state example_pr_page))) \<and>
   try_add_button_log 10 (add_button (load_state example_pr_page)) =
     [ConsoleLog ''Max attempts reached. Button not added.'']"
proof -
  have m: "max_attempts \<le> 10" by (simp add: max_attempts_def)
  have "get_element_by_id btn_id (page (add_button (load_state example_pr_page)))"
    by (simp add: add_button_found load_state_def example_pr_page_def)
  then show ?thesis using try_add_button_gives_up [OF m, of "add_button (load_state example_pr_page)"] m
    by simp
qed

text \<open>
  C34: The success message of \<open>addButton\<close> is logged exactly when the call inserted
  the button.
\<close>

theorem add_button_log_truthful:
  "add_button_log b = ConsoleLog ''Button added successfully'' \<longleftrightarrow>
   \<not> get_element_by_id btn_id (page b) \<and> get_element_by_id btn_id (page (add_button b))"
  by (cases "header_actions (page b)")
    (auto simp: add_button_log_def add_button_absent add_button_found)

end
