(* ===== verification/Script.thy ===== *)
theory Script
  imports Extractor Clipboard Notification Injection
begin

text \<open>
  The script as a whole: the click handler \<open>handleButtonClick\<close> (content.js lines
  98--108), the two \<open>MutationObserver\<close>s (lines 151--160 and 166--173), the dispatch
  of the \<open>setTimeout\<close> callbacks, and the browser event loop that runs them, as an
  inductive step relation on \<open>browser\<close>. The host page is the environment: between
  the script's tasks it may re-render anything, including removing the button, under
  the one assumption that it never itself produces two elements with the button's id.
  The invariants are proved for every reachable state by rule induction.
\<close>

definition generating_msg :: js_string where
  "generating_msg = ''Generating PR link...''"

definition error_prefix :: js_string where
  "error_prefix = ''An error occurred: ''"

text \<open>
  The click handler. Its synchronous part shows the first notification, extracts, and
  calls \<open>copyToClipboard\<close>; a synchronous throw of either is caught by the handler's
  \<open>catch\<close> (line 105). The clipboard writes take effect, and the settled promise's
  reaction, showing the message or \<open>error.message\<close> (lines 103--104), is queued as a
  job that runs later.
\<close>

definition handle_button_click :: "clip_env \<Rightarrow> browser \<Rightarrow> browser" where
  "handle_button_click env b =
     (let b1 = show_notification generating_msg b in
      case generate_pr_link (page b1) of
        Inl e \<Rightarrow> show_notification (error_prefix @ err_message e) b1
      | Inr l \<Rightarrow>
          (case copy_to_clipboard env (richLink l) (plainText l) of
             (Thrown e, _) \<Rightarrow> show_notification (error_prefix @ err_message e) b1
           | (Settled r, calls) \<Rightarrow>
               b1\<lparr>clipboard := apply_calls calls (clipboard b1),
                  jobs := jobs b1 @ [case r of Inl e \<Rightarrow> err_message e | Inr m \<Rightarrow> m]\<rparr>))"

text \<open>A queued promise reaction: \<open>showNotification\<close> with its message.\<close>

definition run_job :: "browser \<Rightarrow> browser" where
  "run_job b =
     (case jobs b of [] \<Rightarrow> b | m # ms \<Rightarrow> show_notification m (b\<lparr>jobs := ms\<rparr>))"

text \<open>The observer on \<open>document.body\<close> (lines 151--157): its callback receives every
  queued record, all of type \<open>childList\<close>, and calls \<open>checkAndAddButton\<close> once per
  record.\<close>

definition body_observer :: "browser \<Rightarrow> browser" where
  "body_observer b = (check_and_add_button ^^ body_records b) (b\<lparr>body_records := 0\<rparr>)"

text \<open>The observer on \<open>document\<close> (lines 166--173): on any record, compare
  \<open>location.href\<close> with \<open>lastUrl\<close>.\<close>

definition doc_observer :: "browser \<Rightarrow> browser" where
  "doc_observer b =
     (let b' = b\<lparr>doc_record := False\<rparr>; url = href (page b) in
      if url \<noteq> last_url b then check_and_add_button (b'\<lparr>last_url := url\<rparr>) else b')"

text \<open>One delivery of mutation records: the observers in creation order, each taking
  its queue when its turn comes.\<close>

definition deliver_mutations :: "browser \<Rightarrow> browser" where
  "deliver_mutations b =
     (let b1 = (if 0 < body_records b then body_observer b else b) in
      if doc_record b1 then doc_observer b1 else b1)"

primrec run_task :: "task \<Rightarrow> browser \<Rightarrow> browser" where
  "run_task (TryAddButton k) = try_add_button k"
| "run_task (FadeToast n) = fade_toast n"
| "run_task (RemoveToast n) = remove_toast n"

text \<open>The timer that fires next: the earliest due time, the first queued among equals.\<close>

fun earliest :: "(nat \<times> task) list \<Rightarrow> (nat \<times> task) option" where
  "earliest [] = None"
| "earliest (x # xs) =
     (case earliest xs of None \<Rightarrow> Some x | Some y \<Rightarrow> if fst y < fst x then Some y else Some x)"

definition fire_timer :: "nat \<times> task \<Rightarrow> browser \<Rightarrow> browser" where
  "fire_timer tt b =
     run_task (snd tt) (b\<lparr>clock := max (clock b) (fst tt), timers := remove1 tt (timers b)\<rparr>)"

text \<open>The script when it has been injected: the observers are registered and the
  first \<open>checkAndAddButton\<close> runs (line 163).\<close>

definition script_start :: "page \<Rightarrow> browser" where
  "script_start p = check_and_add_button (load_state p)"

text \<open>No mutation records are waiting: the microtask checkpoint is done and the event
  loop may run a task.\<close>

definition quiet :: "browser \<Rightarrow> bool" where
  "quiet b \<longleftrightarrow> body_records b = 0 \<and> \<not> doc_record b"

inductive script_step :: "browser \<Rightarrow> browser \<Rightarrow> bool" where
  deliver: "\<not> quiet b \<Longrightarrow> script_step b (deliver_mutations b)"
| job: "quiet b \<Longrightarrow> jobs b \<noteq> [] \<Longrightarrow> script_step b (run_job b)"
| timer: "quiet b \<Longrightarrow> earliest (timers b) = Some tt \<Longrightarrow> script_step b (fire_timer tt b)"
| click: "quiet b \<Longrightarrow> get_element_by_id btn_id (page b) \<Longrightarrow>
    script_step b (handle_button_click env b)"
| host: "quiet b \<Longrightarrow> btn_count p \<le> 1 \<Longrightarrow> subseq (toasts p) (toasts (page b)) \<Longrightarrow>
    script_step b (b\<lparr>page := p, body_records := k, doc_record := (d \<or> 0 < k)\<rparr>)"
| tick: "quiet b \<Longrightarrow> clock b \<le> t \<Longrightarrow> \<forall>tt\<in>set (timers b). t \<le> fst tt \<Longrightarrow>
    script_step b (b\<lparr>clock := t\<rparr>)"

inductive reachable :: "browser \<Rightarrow> bool" where
  start: "btn_count p \<le> 1 \<Longrightarrow> toasts p = [] \<Longrightarrow> reachable (script_start p)"
| step: "reachable b \<Longrightarrow> script_step b b' \<Longrightarrow> reachable b'"

subsection \<open>The invariant\<close>

text \<open>At most one element carries the button's id, every notification in the document
  has a serial number below the counter, and every pending retry carries a counter of at
  most \<open>maxAttempts\<close>. Each operation keeps it; so does every step of the event loop.\<close>

definition retries_bounded :: "browser \<Rightarrow> bool" where
  "retries_bounded b \<longleftrightarrow> (\<forall>tt\<in>set (timers b). \<forall>k. snd tt = TryAddButton k \<longrightarrow> k \<le> max_attempts)"

definition script_inv :: "browser \<Rightarrow> bool" where
  "script_inv b \<longleftrightarrow> btn_count (page b) \<le> 1 \<and> toasts_fresh b \<and> retries_bounded b"

lemma script_inv_fields [simp]:
  "script_inv (b\<lparr>body_records := r\<rparr>) = script_inv b"
  "script_inv (b\<lparr>doc_record := d\<rparr>) = script_inv b"
  "script_inv (b\<lparr>last_url := u\<rparr>) = script_inv b"
  "script_inv (b\<lparr>clock := c\<rparr>) = script_inv b"
  "script_inv (b\<lparr>jobs := j\<rparr>) = script_inv b"
  "script_inv (b\<lparr>clipboard := cb\<rparr>) = script_inv b"
  by (simp_all add: script_inv_def toasts_fresh_def retries_bounded_def)

lemma add_button_toasts [simp]:
  "toasts (page (add_button b)) = toasts (page b)"
  "toast_counter (add_button b) = toast_counter b"
  by (simp_all add: add_button_def note_child_list_def split: option.split)

lemma try_add_button_toasts [simp]:
  "toasts (page (try_add_button k b)) = toasts (page b)"
  "toast_counter (try_add_button k b) = toast_counter b"
  by (simp_all add: try_add_button_def Let_def set_timeout_def)

lemma script_inv_try_add_button: "script_inv b \<Longrightarrow> script_inv (try_add_button k b)"
  using btn_count_try_add_button [of b k]
  by (auto simp: script_inv_def toasts_fresh_def retries_bounded_def try_add_button_timers
      btn_count_try_add_button max_attempts_def)

lemma script_inv_check: "script_inv b \<Longrightarrow> script_inv (check_and_add_button b)"
  by (simp add: check_and_add_button_def script_inv_try_add_button)

lemma script_inv_check_funpow: "script_inv b \<Longrightarrow> script_inv ((check_and_add_button ^^ n) b)"
  by (induction n) (simp_all add: script_inv_check)

lemma script_inv_show_notification: "script_inv b \<Longrightarrow> script_inv (show_notification m b)"
  by (auto simp: script_inv_def btn_count_def retries_bounded_def show_notification_fresh)

lemma script_inv_deliver: "script_inv b \<Longrightarrow> script_inv (deliver_mutations b)"
  by (simp add: deliver_mutations_def body_observer_def doc_observer_def Let_def
      script_inv_check_funpow script_inv_check)

lemma script_inv_run_job: "script_inv b \<Longrightarrow> script_inv (run_job b)"
  by (simp add: run_job_def script_inv_show_notification split: list.split)

lemma script_inv_click: "script_inv b \<Longrightarrow> script_inv (handle_button_click env b)"
  by (auto simp: handle_button_click_def Let_def script_inv_show_notification
      split: sum.split prod.split copy_outcome.split)

lemma script_inv_fade: "script_inv b \<Longrightarrow> script_inv (fade_toast n b)"
  by (auto simp: script_inv_def btn_count_def retries_bounded_def fade_toast_fresh)

lemma script_inv_remove: "script_inv b \<Longrightarrow> script_inv (remove_toast n b)"
  by (auto simp: script_inv_def btn_count_def retries_bounded_def remove_toast_fresh)

lemma script_inv_fire_timer: "script_inv b \<Longrightarrow> script_inv (fire_timer tt b)"
proof -
  assume inv: "script_inv b"
  let ?b = "b\<lparr>clock := max (clock b) (fst tt), timers := remove1 tt (timers b)\<rparr>"
  have "script_inv ?b"
    using inv by (auto simp: script_inv_def toasts_fresh_def retries_bounded_def
        dest: set_remove1_subset [THEN subsetD])
  then show ?thesis
    by (cases "snd tt") (simp_all add: fire_timer_def script_inv_try_add_button
        script_inv_fade script_inv_remove)
qed
lemma subseq_set: "subseq xs ys \<Longrightarrow> set xs \<subseteq> set ys"
  by (auto dest: list_emb_set)

lemma script_inv_host:
  assumes "script_inv b" and "btn_count p \<le> 1" and "subseq (toasts p) (toasts (page b))"
  shows "script_inv (b\<lparr>page := p\<rparr>)"
  using assms subseq_set [OF assms(3)]
  by (auto simp: script_inv_def toasts_fresh_def retries_bounded_def)

lemma script_step_inv: "script_step b b' \<Longrightarrow> script_inv b \<Longrightarrow> script_inv b'"
proof (induction rule: script_step.induct)
  case (deliver b)
  then show ?case by (simp add: script_inv_deliver)
next
  case (job b)
  then show ?case by (simp add: script_inv_run_job)
next
  case (timer b tt)
  then show ?case by (simp add: script_inv_fire_timer)
next
  case (click b env)
  then show ?case by (simp add: script_inv_click)
next
  case (host b p k d)
  then show ?case using script_inv_host [of b p] by simp
next
  case (tick b t)
  then show ?case by simp
qed

lemma script_inv_start: "btn_count p \<le> 1 \<Longrightarrow> toasts p = [] \<Longrightarrow> script_inv (script_start p)"
proof -
  assume "btn_count p \<le> 1" and "toasts p = []"
  then have "script_inv (load_state p)"
    by (simp add: script_inv_def toasts_fresh_def retries_bounded_def load_state_def)
  then show ?thesis by (simp add: script_start_def script_inv_check)
qed

lemma reachable_script_inv: "reachable b \<Longrightarrow> script_inv b"
  by (induction rule: reachable.induct) (auto intro: script_inv_start script_step_inv)

subsection \<open>Properties of the running script\<close>

lemma reachable_example_start:
  "reachable (script_start example_pr_page)" "reachable (script_start example_loading_page)"
  by (rule reachable.start,
      simp_all add: btn_count_def doc_ids_def example_pr_page_def example_loading_page_def
      btn_id_def)+

text \<open>
  C1: The button is never duplicated. In every state the running script can reach,
  whatever mutations, URL changes, clicks and timers occur in whatever order, at most one
  element with the id \<open>copy-pr-link-btn\<close> is in the document, and at most one
  "Copy PR Link" button made by the script is in the header region.
\<close>

theorem reachable_btn_unique:
  "reachable b \<Longrightarrow> btn_count (page b) \<le> 1 \<and> script_buttons (page b) \<le> 1"
  by (drule reachable_script_inv) (auto simp: script_inv_def intro: order.trans [OF script_buttons_le_btn_count])

lemma reachable_btn_unique_witness:
  "reachable (script_start example_pr_page) \<and> btn_count (page (script_start example_pr_page)) \<le> 1 \<and>
   script_buttons (page (script_start example_pr_page)) \<le> 1"
  using reachable_btn_unique [OF reachable_example_start(1)] reachable_example_start(1) by simp

subsection \<open>The observers settle\<close>

text \<open>The script's own mutations (an insertion, which queues one record for each
  observer) feed back into the observers. A check can insert only when the button is
  missing on a PR path with a rendered header region, and afterwards it is present.\<close>

definition pending_insert :: "browser \<Rightarrow> bool" where
  "pending_insert b \<longleftrightarrow> is_pr_path (pathname (page b)) \<and> header_actions (page b) \<noteq> None
     \<and> \<not> get_element_by_id btn_id (page b)"

text \<open>What one check does to the observer queues and the fields the observers read.\<close>

lemma check_no_insert:
  assumes "\<not> pending_insert b"
  shows "body_records (check_and_add_button b) = body_records b \<and>
         doc_record (check_and_add_button b) = doc_record b \<and>
         \<not> pending_insert (check_and_add_button b) \<and>
         page (check_and_add_button b) = page b \<and> last_url (check_and_add_button b) = last_url b"
  using assms
  by (auto simp: pending_insert_def check_and_add_button_def try_add_button_def Let_def
      add_button_absent set_timeout_def)

lemma check_insert:
  assumes "pending_insert b"
  shows "body_records (check_and_add_button b) = Suc (body_records b) \<and>
         doc_record (check_and_add_button b) \<and>
         \<not> pending_insert (check_and_add_button b) \<and>
         pathname (page (check_and_add_button b)) = pathname (page b) \<and>
         href (page (check_and_add_button b)) = href (page b) \<and>
         last_url (check_and_add_button b) = last_url b"
proof -
  from assms obtain cs where h: "header_actions (page b) = Some cs" and
    a: "\<not> get_element_by_id btn_id (page b)" and p: "is_pr_path (pathname (page b))"
    by (auto simp: pending_insert_def)
  have f: "get_element_by_id btn_id (page (add_button b))"
    using h by (simp add: add_button_found)
  show ?thesis
    using h a p f
    by (simp add: pending_insert_def check_and_add_button_def try_add_button_def
        max_attempts_def add_button_def note_child_list_def)
qed

lemma check_funpow_no_insert:
  assumes "\<not> pending_insert b"
  shows "body_records ((check_and_add_button ^^ n) b) = body_records b \<and>
         doc_record ((check_and_add_button ^^ n) b) = doc_record b \<and>
         \<not> pending_insert ((check_and_add_button ^^ n) b) \<and>
         page ((check_and_add_button ^^ n) b) = page b \<and>
         last_url ((check_and_add_button ^^ n) b) = last_url b"
  using assms
proof (induction n)
  case 0
  then show ?case by simp
next
  case (Suc n)
  then show ?case using check_no_insert [of "(check_and_add_button ^^ n) b"] by simp
qed

lemma check_funpow_insert:
  assumes "pending_insert b" and "0 < n"
  shows "body_records ((check_and_add_button ^^ n) b) = Suc (body_records b) \<and>
         doc_record ((check_and_add_button ^^ n) b) \<and>
         \<not> pending_insert ((check_and_add_button ^^ n) b) \<and>
         href (page ((check_and_add_button ^^ n) b)) = href (page b) \<and>
         last_url ((check_and_add_button ^^ n) b) = last_url b"
proof -
  obtain m where n: "n = Suc m" using assms(2) by (cases n) auto
  have "(check_and_add_button ^^ n) b = (check_and_add_button ^^ m) (check_and_add_button b)"
    by (simp only: n funpow_Suc_right comp_def)
  then show ?thesis
    using check_insert [OF assms(1)]
      check_funpow_no_insert [of "check_and_add_button b" m] by simp
qed

text \<open>After one delivery the queues are empty, or the only records left were caused by
  an insertion that has happened, and the URL has been seen.\<close>

definition after_delivery :: "browser \<Rightarrow> bool" where
  "after_delivery b \<longleftrightarrow>
     quiet b \<or> \<not> pending_insert b \<and> (doc_record b \<longrightarrow> href (page b) = last_url b)"

lemma pending_insert_fields [simp]:
  "pending_insert (b\<lparr>body_records := r\<rparr>) = pending_insert b"
  "pending_insert (b\<lparr>doc_record := d\<rparr>) = pending_insert b"
  "pending_insert (b\<lparr>last_url := u\<rparr>) = pending_insert b"
  by (simp_all add: pending_insert_def)

lemma doc_observer_after:
  assumes "body_records b = 0 \<or> \<not> pending_insert b"
  shows "after_delivery (doc_observer b)"
proof (cases "href (page b) = last_url b")
  case True
  then show ?thesis using assms
    by (auto simp: doc_observer_def after_delivery_def quiet_def)
next
  case False
  let ?b = "b\<lparr>doc_record := False, last_url := href (page b)\<rparr>"
  have eq: "doc_observer b = check_and_add_button ?b"
    using False by (simp add: doc_observer_def)
  show ?thesis
  proof (cases "pending_insert b")
    case True
    then show ?thesis using check_insert [of ?b] eq by (simp add: after_delivery_def)
  next
    case no: False
    then show ?thesis using check_no_insert [of ?b] eq assms
      by (auto simp: after_delivery_def quiet_def)
  qed
qed

lemma deliver_after: "after_delivery (deliver_mutations b)"
proof (cases "body_records b = 0")
  case True
  show ?thesis
  proof (cases "doc_record b")
    case d: True
    with True show ?thesis by (simp add: deliver_mutations_def doc_observer_after)
  next
    case d: False
    with True show ?thesis by (simp add: deliver_mutations_def after_delivery_def quiet_def)
  qed
next
  case False
  let ?b0 = "b\<lparr>body_records := 0\<rparr>"
  let ?b1 = "(check_and_add_button ^^ body_records b) ?b0"
  have b1: "deliver_mutations b = (if doc_record ?b1 then doc_observer ?b1 else ?b1)"
    using False by (simp add: deliver_mutations_def body_observer_def)
  show ?thesis
  proof (cases "pending_insert b")
    case True
    then have "doc_record ?b1 \<and> \<not> pending_insert ?b1"
      using check_funpow_insert [of ?b0 "body_records b"] False by simp
    then show ?thesis by (simp add: b1 doc_observer_after)
  next
    case no: False
    then have r: "body_records ?b1 = 0" and d: "doc_record ?b1 = doc_record b"
      using check_funpow_no_insert [of ?b0 "body_records b"] by simp_all
    show ?thesis
    proof (cases "doc_record b")
      case True
      with r d show ?thesis by (simp add: b1 doc_observer_after)
    next
      case False
      with r d show ?thesis by (simp add: b1 after_delivery_def quiet_def)
    qed
  qed
qed

lemma deliver_after_quiet: "after_delivery b \<Longrightarrow> quiet (deliver_mutations b)"
proof -
  assume a: "after_delivery b"
  show ?thesis
  proof (cases "quiet b")
    case True
    then show ?thesis by (simp add: deliver_mutations_def quiet_def)
  next
    case False
    with a have np: "\<not> pending_insert b" and url: "doc_record b \<longrightarrow> href (page b) = last_url b"
      by (auto simp: after_delivery_def)
    let ?b1 = "if 0 < body_records b then body_observer b else b"
    have "body_records ?b1 = 0 \<and> doc_record ?b1 = doc_record b \<and> page ?b1 = page b \<and>
          last_url ?b1 = last_url b"
      using check_funpow_no_insert [of "b\<lparr>body_records := 0\<rparr>" "body_records b"] np
      by (simp add: body_observer_def)
    with url show ?thesis
      by (simp add: deliver_mutations_def doc_observer_def Let_def quiet_def)
  qed
qed

text \<open>
  C12: Termination of the observer feedback. Whatever records are queued, two
  deliveries leave both observers' queues empty: the insertion made while handling a
  delivery triggers the observers once more, and that round changes nothing.
\<close>

theorem deliveries_settle: "quiet (deliver_mutations (deliver_mutations b))"
  by (rule deliver_after_quiet [OF deliver_after])

end
