(* ===== verification/Progress.thy ===== *)
theory Progress
  imports Script
begin

text \<open>
  Progress of the script's own work. Without clicks and without re-renders by the host,
  the event loop only delivers mutation records, runs promise reactions and fires the
  script's timers (\<open>auto_step\<close>, a sub-relation of \<open>script_step\<close>). This theory
  shows that every such run is finite and ends with nothing queued (\<open>idle\<close>), by a
  lexicographic measure \<open>loop_rank\<close>: the pending notification work, whether the
  button is missing, whether records are queued, and the remaining budget of the retry
  chains. A removed notification queues a record, which may start a new retry chain, and
  an insertion queues records that trigger the observers again; the order of the
  components makes each step decrease the measure all the same. On top of it,
  liveness: once the header region is rendered while a retry with budget left is
  pending, every complete run ends with the button in the document.
\<close>

text \<open>The event loop driven by the script alone: the \<open>deliver\<close>, \<open>job\<close> and
  \<open>timer\<close> rules of \<open>script_step\<close>.\<close>

inductive auto_step :: "browser \<Rightarrow> browser \<Rightarrow> bool" where
  deliver: "\<not> quiet b \<Longrightarrow> auto_step b (deliver_mutations b)"
| job: "quiet b \<Longrightarrow> jobs b \<noteq> [] \<Longrightarrow> auto_step b (run_job b)"
| timer: "quiet b \<Longrightarrow> earliest (timers b) = Some tt \<Longrightarrow> auto_step b (fire_timer tt b)"

text \<open>Nothing is queued: no mutation records, no promise reactions, no timers.\<close>

definition idle :: "browser \<Rightarrow> bool" where
  "idle b \<longleftrightarrow> quiet b \<and> jobs b = [] \<and> timers b = []"

text \<open>The measure. Pending notification work: a job will show a notification (3), a
  fade timer still has its removal to come (2), a removal timer is the last step (1).
  A retry \<open>TryAddButton k\<close> has at most \<open>maxAttempts - k\<close> successors.\<close>

primrec toast_weight :: "task \<Rightarrow> nat" where
  "toast_weight (TryAddButton k) = 0"
| "toast_weight (FadeToast n) = 2"
| "toast_weight (RemoveToast n) = 1"

primrec chain_weight :: "task \<Rightarrow> nat" where
  "chain_weight (TryAddButton k) = Suc (max_attempts - k)"
| "chain_weight (FadeToast n) = 0"
| "chain_weight (RemoveToast n) = 0"

definition notif_work :: "browser \<Rightarrow> nat" where
  "notif_work b = 3 * length (jobs b) + (\<Sum>tt\<leftarrow>timers b. toast_weight (snd tt))"

definition chain_work :: "browser \<Rightarrow> nat" where
  "chain_work b = (\<Sum>tt\<leftarrow>timers b. chain_weight (snd tt))"

definition loop_rank :: "browser \<Rightarrow> nat \<times> nat \<times> nat \<times> nat" where
  "loop_rank b =
     (notif_work b, if get_element_by_id btn_id (page b) then 0 else 1,
      if quiet b then 0 else 1, chain_work b)"

definition loop_order :: "((nat \<times> nat \<times> nat \<times> nat) \<times> (nat \<times> nat \<times> nat \<times> nat)) set" where
  "loop_order = less_than <*lex*> less_than <*lex*> less_than <*lex*> less_than"

text \<open>What the injection controller does to the rest of the state: it keeps the jobs
  and notifications, only appends retries, never removes the button, and never
  removes a rendered header region.\<close>

definition chain_ext :: "browser \<Rightarrow> browser \<Rightarrow> bool" where
  "chain_ext b b' \<longleftrightarrow> jobs b' = jobs b \<and> toasts (page b') = toasts (page b) \<and>
     (\<exists>ts. timers b' = timers b @ ts \<and> (\<forall>tt\<in>set ts. toast_weight (snd tt) = 0)) \<and>
     (get_element_by_id btn_id (page b) \<longrightarrow> get_element_by_id btn_id (page b')) \<and>
     (header_actions (page b) \<noteq> None \<longrightarrow> header_actions (page b') \<noteq> None)"

text \<open>The liveness invariant: the header region is rendered, and the button is present
  or a retry with budget left is pending.\<close>

definition live_inv :: "browser \<Rightarrow> bool" where
  "live_inv b \<longleftrightarrow> header_actions (page b) \<noteq> None \<and>
     (get_element_by_id btn_id (page b) \<or>
      (\<exists>tt\<in>set (timers b). \<exists>k. snd tt = TryAddButton k \<and> k < max_attempts))"

text \<open>After a re-render: the liveness invariant, or records queued on a PR path with a
  rendered header region (the delivery of which inserts the button).\<close>

definition rerender_inv :: "browser \<Rightarrow> bool" where
  "rerender_inv b \<longleftrightarrow> live_inv b \<or>
     header_actions (page b) \<noteq> None \<and> is_pr_path (pathname (page b)) \<and> 0 < body_records b"

subsection \<open>Finished states\<close>

lemma auto_step_script_step: "auto_step b b' \<Longrightarrow> script_step b b'"
  by (induction rule: auto_step.induct) (auto intro: script_step.intros)

lemma earliest_None_iff [simp]: "earliest xs = None \<longleftrightarrow> xs = []"
  by (induction xs) (auto split: option.split)

lemma earliest_in: "earliest xs = Some tt \<Longrightarrow> tt \<in> set xs"
  by (induction xs arbitrary: tt) (auto split: option.splits if_splits)

lemma auto_step_finished_iff: "(\<nexists>b'. auto_step b b') \<longleftrightarrow> idle b"
proof
  assume none: "\<nexists>b'. auto_step b b'"
  then have q: "quiet b" by (auto intro: auto_step.deliver)
  moreover from none q have "jobs b = []" by (auto intro: auto_step.job)
  moreover have "timers b = []"
  proof (rule ccontr)
    assume "timers b \<noteq> []"
    then obtain tt where "earliest (timers b) = Some tt" by (cases "earliest (timers b)") auto
    with q none show False by (auto intro: auto_step.timer)
  qed
  ultimately show "idle b" by (simp add: idle_def)
next
  assume "idle b"
  then show "\<nexists>b'. auto_step b b'"
    by (auto simp: idle_def elim: auto_step.cases)
qed

subsection \<open>The injection controller extends the state\<close>

lemma chain_ext_refl [simp]: "chain_ext b b"
  by (auto simp: chain_ext_def)

lemma chain_ext_trans:
  assumes "chain_ext b b'" and "chain_ext b' b''"
  shows "chain_ext b b''"
proof -
  obtain ts where t: "timers b' = timers b @ ts" "\<forall>tt\<in>set ts. toast_weight (snd tt) = 0"
    using assms(1) by (auto simp: chain_ext_def)
  obtain ts' where t': "timers b'' = timers b' @ ts'" "\<forall>tt\<in>set ts'. toast_weight (snd tt) = 0"
    using assms(2) by (auto simp: chain_ext_def)
  have "\<exists>ts. timers b'' = timers b @ ts \<and> (\<forall>tt\<in>set ts. toast_weight (snd tt) = 0)"
    using t t' by (intro exI [of _ "ts @ ts'"]) auto
  with assms show ?thesis unfolding chain_ext_def by (elim conjE) (intro conjI; simp)
qed

lemma chain_ext_fields [simp]:
  "chain_ext (b\<lparr>body_records := r\<rparr>) b' = chain_ext b b'"
  "chain_ext (b\<lparr>doc_record := d\<rparr>) b' = chain_ext b b'"
  "chain_ext (b\<lparr>last_url := u\<rparr>) b' = chain_ext b b'"
  "chain_ext b (b'\<lparr>body_records := r\<rparr>) = chain_ext b b'"
  "chain_ext b (b'\<lparr>doc_record := d\<rparr>) = chain_ext b b'"
  "chain_ext b (b'\<lparr>last_url := u\<rparr>) = chain_ext b b'"
  by (simp_all add: chain_ext_def)

lemma chain_ext_try_add_button: "chain_ext b (try_add_button k b)"
proof -
  have "header_actions (page b) \<noteq> None \<longrightarrow> header_actions (page (try_add_button k b)) \<noteq> None"
    by (cases "header_actions (page b)")
      (auto simp: try_add_button_def Let_def add_button_def note_child_list_def set_timeout_def)
  then show ?thesis
    by (auto simp: chain_ext_def try_add_button_timers try_add_button_present
        try_add_button_def Let_def set_timeout_def)
qed

lemma chain_ext_check: "chain_ext b (check_and_add_button b)"
  by (simp add: check_and_add_button_def chain_ext_try_add_button)

lemma chain_ext_check_funpow: "chain_ext b ((check_and_add_button ^^ n) b)"
  by (induction n) (auto intro: chain_ext_trans chain_ext_check)

lemma chain_ext_doc_observer: "chain_ext b (doc_observer b)"
  by (simp add: doc_observer_def Let_def chain_ext_check
      chain_ext_check [of "b\<lparr>doc_record := False, last_url := href (page b)\<rparr>", simplified])

lemma chain_ext_deliver: "chain_ext b (deliver_mutations b)"
proof -
  let ?b1 = "if 0 < body_records b then body_observer b else b"
  have 1: "chain_ext b ?b1"
    using chain_ext_check_funpow [of "b\<lparr>body_records := 0\<rparr>" "body_records b"]
    by (simp add: body_observer_def)
  show ?thesis
    using chain_ext_trans [OF 1 chain_ext_doc_observer [of ?b1]] 1
    by (simp add: deliver_mutations_def Let_def del: if_split)
qed

lemma chain_ext_notif_work: "chain_ext b b' \<Longrightarrow> notif_work b' = notif_work b"
  by (auto simp: chain_ext_def notif_work_def)

subsection \<open>A delivery inserts the button or empties the queues\<close>

lemma check_pending_btn:
  "pending_insert b \<Longrightarrow> get_element_by_id btn_id (page (check_and_add_button b))"
  by (auto simp: pending_insert_def check_and_add_button_def try_add_button_def Let_def
      max_attempts_def add_button_found)

lemma check_funpow_present:
  "get_element_by_id btn_id (page b) \<Longrightarrow> (check_and_add_button ^^ n) b = b"
  by (induction n) (simp_all add: check_and_add_button_def try_add_button_present)

lemma check_funpow_pending_btn:
  assumes "pending_insert b" and "0 < n"
  shows "get_element_by_id btn_id (page ((check_and_add_button ^^ n) b))"
proof -
  obtain m where n: "n = Suc m" using assms(2) by (cases n) auto
  have "(check_and_add_button ^^ n) b = (check_and_add_button ^^ m) (check_and_add_button b)"
    by (simp only: n funpow_Suc_right comp_def)
  then show ?thesis
    using check_pending_btn [OF assms(1)] check_funpow_present by simp
qed

text \<open>A delivery with body records queued, on a PR path with a rendered header region,
  leaves the button in the document.\<close>

lemma deliver_records_insert:
  assumes "pending_insert b" and "0 < body_records b"
  shows "get_element_by_id btn_id (page (deliver_mutations b))"
proof -
  have "get_element_by_id btn_id (page (body_observer b))"
    using check_funpow_pending_btn [of "b\<lparr>body_records := 0\<rparr>" "body_records b"] assms
    by (simp add: body_observer_def)
  then show ?thesis
    using chain_ext_doc_observer [of "body_observer b"] assms(2)
    by (auto simp: deliver_mutations_def chain_ext_def Let_def)
qed

lemma deliver_pending_records:
  assumes "header_actions (page b) \<noteq> None" and "is_pr_path (pathname (page b))"
    and "0 < body_records b"
  shows "get_element_by_id btn_id (page (deliver_mutations b))"
proof (cases "get_element_by_id btn_id (page b)")
  case True
  then show ?thesis using chain_ext_deliver [of b] by (simp add: chain_ext_def)
next
  case False
  with assms have "pending_insert b" by (simp add: pending_insert_def)
  then show ?thesis using deliver_records_insert assms(3) by blast
qed

text \<open>A delivery either inserts the button or leaves the queues empty.\<close>

lemma deliver_inserts_or_quiet:
  "\<not> get_element_by_id btn_id (page b) \<and> get_element_by_id btn_id (page (deliver_mutations b)) \<or>
   quiet (deliver_mutations b) \<and>
   get_element_by_id btn_id (page (deliver_mutations b)) = get_element_by_id btn_id (page b)"
proof (cases "pending_insert b")
  case False
  let ?b0 = "b\<lparr>body_records := 0\<rparr>"
  let ?b1 = "if 0 < body_records b then body_observer b else b"
  have b1: "body_records ?b1 = 0 \<or> \<not> 0 < body_records b" "doc_record ?b1 = doc_record b"
      "page ?b1 = page b" "last_url ?b1 = last_url b" "\<not> pending_insert ?b1"
    using check_funpow_no_insert [of ?b0 "body_records b"] False by (auto simp: body_observer_def)
  show ?thesis
  proof (cases "doc_record b")
    case True
    then show ?thesis using b1 check_no_insert [of "?b1\<lparr>doc_record := False, last_url := href (page b)\<rparr>"]
      by (auto simp: deliver_mutations_def doc_observer_def Let_def quiet_def)
  next
    case nd: False
    then show ?thesis using b1 by (auto simp: deliver_mutations_def quiet_def)
  qed
next
  case True
  then have nb: "\<not> get_element_by_id btn_id (page b)" by (simp add: pending_insert_def)
  show ?thesis
  proof (cases "0 < body_records b")
    case pos: True
    with nb show ?thesis using deliver_records_insert [OF True pos] by simp
  next
    case zero: False
    show ?thesis
    proof (cases "doc_record b \<and> href (page b) \<noteq> last_url b")
      case True
      then have "deliver_mutations b = check_and_add_button (b\<lparr>doc_record := False, last_url := href (page b)\<rparr>)"
        using zero by (simp add: deliver_mutations_def doc_observer_def Let_def)
      then show ?thesis
        using check_pending_btn [of "b\<lparr>doc_record := False, last_url := href (page b)\<rparr>"] \<open>pending_insert b\<close> nb
        by simp
    next
      case False
      then show ?thesis using zero
        by (auto simp: deliver_mutations_def doc_observer_def Let_def quiet_def)
    qed
  qed
qed

subsection \<open>Every step decreases the measure\<close>

lemma wf_loop_order: "wf loop_order"
  by (simp add: loop_order_def wf_lex_prod)

lemma loop_order_iff:
  "(loop_rank b', loop_rank b) \<in> loop_order \<longleftrightarrow>
     notif_work b' < notif_work b \<or> notif_work b' = notif_work b \<and>
     (get_element_by_id btn_id (page b') \<and> \<not> get_element_by_id btn_id (page b) \<or>
      get_element_by_id btn_id (page b') = get_element_by_id btn_id (page b) \<and>
      (quiet b' \<and> \<not> quiet b \<or> quiet b' = quiet b \<and> chain_work b' < chain_work b))"
  by (auto simp: loop_rank_def loop_order_def)

lemma deliver_rank: "\<not> quiet b \<Longrightarrow> (loop_rank (deliver_mutations b), loop_rank b) \<in> loop_order"
  using deliver_inserts_or_quiet [of b] chain_ext_notif_work [OF chain_ext_deliver]
  by (auto simp: loop_order_iff)

lemma run_job_rank: "jobs b \<noteq> [] \<Longrightarrow> (loop_rank (run_job b), loop_rank b) \<in> loop_order"
  by (auto simp: loop_order_iff run_job_def notif_work_def neq_Nil_conv)

lemma try_add_button_no_insert:
  "\<not> get_element_by_id btn_id (page (try_add_button k b)) \<Longrightarrow> quiet (try_add_button k b) = quiet b"
  by (cases "header_actions (page b)")
    (auto simp: try_add_button_def Let_def add_button_absent add_button_found set_timeout_def
      quiet_def)

lemma try_add_button_chain_work:
  "chain_work (try_add_button k b) < Suc (max_attempts - k) + chain_work b"
  by (auto simp: chain_work_def try_add_button_timers diff_less_mono2)

lemma fade_remove_jobs [simp]:
  "jobs (fade_toast n b) = jobs b" "jobs (remove_toast n b) = jobs b"
  by (simp_all add: fade_toast_def remove_toast_def set_timeout_def note_child_list_def)

lemma fire_timer_rank:
  assumes "quiet b" and "tt \<in> set (timers b)"
  shows "(loop_rank (fire_timer tt b), loop_rank b) \<in> loop_order"
proof -
  let ?b0 = "b\<lparr>clock := max (clock b) (fst tt), timers := remove1 tt (timers b)\<rparr>"
  have n0: "notif_work b = toast_weight (snd tt) + notif_work ?b0"
    using assms(2) by (simp add: notif_work_def sum_list_map_remove1)
  have c0: "chain_work b = chain_weight (snd tt) + chain_work ?b0"
    using assms(2) by (simp add: chain_work_def sum_list_map_remove1)
  have q0: "quiet ?b0" using assms(1) by (simp add: quiet_def)
  show ?thesis
  proof (cases "snd tt")
    case (TryAddButton k)
    let ?b' = "try_add_button k ?b0"
    have f: "fire_timer tt b = ?b'" using TryAddButton by (simp add: fire_timer_def)
    have n: "notif_work ?b' = notif_work b"
      using chain_ext_notif_work [OF chain_ext_try_add_button] n0 TryAddButton by simp
    have c: "chain_work ?b' < chain_work b"
      using try_add_button_chain_work [of k ?b0] c0 TryAddButton by simp
    show ?thesis
    proof (cases "get_element_by_id btn_id (page ?b')")
      case True
      then show ?thesis using n c q0 try_add_button_present [of ?b0 k]
        by (auto simp: f loop_order_iff)
    next
      case False
      then show ?thesis using n c q0 assms(1) try_add_button_no_insert [OF False]
        chain_ext_try_add_button [of ?b0 k]
        by (auto simp: f loop_order_iff chain_ext_def)
    qed
  next
    case (FadeToast n)
    then show ?thesis using n0
      by (simp add: fire_timer_def loop_order_iff notif_work_def)
  next
    case (RemoveToast n)
    then show ?thesis using n0
      by (simp add: fire_timer_def loop_order_iff notif_work_def)
  qed
qed

lemma auto_step_rank: "auto_step b b' \<Longrightarrow> (loop_rank b', loop_rank b) \<in> loop_order"
  by (induction rule: auto_step.induct)
    (auto intro: deliver_rank run_job_rank fire_timer_rank earliest_in)

lemma auto_step_wf: "wf {(b', b). auto_step b b'}"
proof (rule wf_subset [OF wf_inv_image [OF wf_loop_order, of loop_rank]])
  show "{(b', b). auto_step b b'} \<subseteq> inv_image loop_order loop_rank"
    by (auto simp: inv_image_def auto_step_rank)
qed

lemma auto_step_reaches_idle: "\<exists>b'. auto_step\<^sup>*\<^sup>* b b' \<and> idle b'"
proof (induction b rule: wf_induct [OF auto_step_wf])
  case (1 b)
  show ?case
  proof (cases "idle b")
    case True
    then show ?thesis by blast
  next
    case False
    then obtain b1 where s: "auto_step b b1" using auto_step_finished_iff by blast
    with 1 obtain b' where "auto_step\<^sup>*\<^sup>* b1 b'" and "idle b'" by blast
    with s show ?thesis by (blast intro: converse_rtranclp_into_rtranclp)
  qed
qed

subsection \<open>Properties of the event loop\<close>

text \<open>
  C9: Termination of the script's own work. There is no infinite run of deliveries,
  promise reactions and timers, and from every state a run reaches a state with
  nothing queued.
\<close>

theorem event_loop_terminates:
  "\<not> (\<exists>f. \<forall>i. auto_step (f i) (f (Suc i))) \<and> (\<exists>b'. auto_step\<^sup>*\<^sup>* b b' \<and> idle b')"
  using auto_step_wf auto_step_reaches_idle by (auto simp: wf_iff_no_infinite_down_chain)

lemma event_loop_terminates_witness:
  "\<not> (\<exists>f. \<forall>i. auto_step (f i) (f (Suc i))) \<and>
   (\<exists>b'. auto_step\<^sup>*\<^sup>* (script_start example_loading_page) b' \<and> idle b')"
  using event_loop_terminates [of "script_start example_loading_page"] by blast

lemma chain_ext_live_inv: "chain_ext b b' \<Longrightarrow> live_inv b \<Longrightarrow> live_inv b'"
  by (auto simp: chain_ext_def live_inv_def)

lemma run_task_keeps:
  "set (timers b) \<subseteq> set (timers (run_task t b)) \<and>
   (get_element_by_id btn_id (page b) \<longrightarrow> get_element_by_id btn_id (page (run_task t b))) \<and>
   (header_actions (page b) \<noteq> None \<longrightarrow> header_actions (page (run_task t b)) \<noteq> None)"
proof (cases t)
  case (TryAddButton k)
  then show ?thesis using chain_ext_try_add_button [of b k] by (auto simp: chain_ext_def)
next
  case (FadeToast n)
  then show ?thesis by (auto simp: fade_toast_def set_timeout_def get_element_by_id_def)
next
  case (RemoveToast n)
  then show ?thesis
    by (auto simp: remove_toast_def note_child_list_def get_element_by_id_def)
qed

lemma fire_timer_live_inv:
  assumes "live_inv b" and "tt \<in> set (timers b)"
  shows "live_inv (fire_timer tt b)"
proof -
  let ?b0 = "b\<lparr>clock := max (clock b) (fst tt), timers := remove1 tt (timers b)\<rparr>"
  have f: "fire_timer tt b = run_task (snd tt) ?b0" by (simp add: fire_timer_def)
  have h: "header_actions (page (fire_timer tt b)) \<noteq> None"
    using assms(1) run_task_keeps [of ?b0 "snd tt"] by (simp add: f live_inv_def)
  show ?thesis
  proof (cases "get_element_by_id btn_id (page b)")
    case True
    then show ?thesis using h run_task_keeps [of ?b0 "snd tt"]
      by (simp add: f live_inv_def get_element_by_id_def)
  next
    case nb: False
    with assms(1) obtain tc k where tc: "tc \<in> set (timers b)" "snd tc = TryAddButton k"
        "k < max_attempts" by (auto simp: live_inv_def)
    show ?thesis
    proof (cases "tc = tt")
      case True
      have "header_actions (page ?b0) \<noteq> None" using assms(1) by (simp add: live_inv_def)
      then have "get_element_by_id btn_id (page (fire_timer tt b))"
        using tc True nb add_button_found [of ?b0]
        by (auto simp: f try_add_button_def Let_def)
      with h show ?thesis by (simp add: live_inv_def)
    next
      case False
      then have "tc \<in> set (timers ?b0)" using tc(1) by (simp add: in_set_remove1)
      then have "tc \<in> set (timers (fire_timer tt b))"
        using run_task_keeps [of ?b0 "snd tt"] by (auto simp: f)
      with h tc show ?thesis by (auto simp: live_inv_def)
    qed
  qed
qed

lemma run_job_live_inv: "live_inv b \<Longrightarrow> live_inv (run_job b)"
  by (auto simp: run_job_def live_inv_def get_element_by_id_def split: list.split)

lemma auto_step_live_inv: "auto_step b b' \<Longrightarrow> live_inv b \<Longrightarrow> live_inv b'"
  by (induction rule: auto_step.induct)
    (auto intro: chain_ext_live_inv [OF chain_ext_deliver] run_job_live_inv
      fire_timer_live_inv earliest_in)

lemma auto_steps_live_inv: "auto_step\<^sup>*\<^sup>* b b' \<Longrightarrow> live_inv b \<Longrightarrow> live_inv b'"
  by (induction rule: rtranclp_induct) (auto intro: auto_step_live_inv)

text \<open>
  C7: Liveness of the injection. If the header region is rendered while a retry
  \<open>TryAddButton k\<close> with \<open>k < maxAttempts\<close> is pending, then, without clicks or
  further re-renders, some run reaches a state with nothing queued, and every run that
  does has inserted the button.
\<close>

theorem button_eventually_present:
  assumes "header_actions (page b) \<noteq> None"
    and "(d, TryAddButton k) \<in> set (timers b)" and "k < max_attempts"
  shows "(\<exists>b'. auto_step\<^sup>*\<^sup>* b b' \<and> idle b') \<and>
         (\<forall>b'. auto_step\<^sup>*\<^sup>* b b' \<longrightarrow> idle b' \<longrightarrow> get_element_by_id btn_id (page b'))"
proof -
  have "live_inv b" using assms by (force simp: live_inv_def)
  have "get_element_by_id btn_id (page b')" if "auto_step\<^sup>*\<^sup>* b b'" and "idle b'" for b'
  proof -
    from that(1) \<open>live_inv b\<close> have "live_inv b'" by (rule auto_steps_live_inv)
    with that(2) show ?thesis by (simp add: live_inv_def idle_def)
  qed
  then show ?thesis using auto_step_reaches_idle [of b] by blast
qed

lemma button_eventually_present_witness:
  "header_actions (page ((script_start example_loading_page)\<lparr>page := example_pr_page\<rparr>)) \<noteq> None \<and>
   (1000, TryAddButton 1) \<in> set (timers ((script_start example_loading_page)\<lparr>page := example_pr_page\<rparr>)) \<and>
   1 < max_attempts \<and>
   (\<exists>b'. auto_step\<^sup>*\<^sup>* ((script_start example_loading_page)\<lparr>page := example_pr_page\<rparr>) b' \<and> idle b')"
proof -
  let ?b = "(script_start example_loading_page)\<lparr>page := example_pr_page\<rparr>"
  have h: "header_actions (page ?b) \<noteq> None" by (simp add: example_pr_page_def)
  have t: "(1000, TryAddButton 1) \<in> set (timers ?b)"
    by (simp add: script_start_def check_and_add_button_def try_add_button_def is_pr_path_def
        load_state_def example_loading_page_def example_pr_page_def add_button_absent
        max_attempts_def set_timeout_def prefix_def get_element_by_id_def doc_ids_def btn_id_def)
  have m: "1 < max_attempts" by (simp add: max_attempts_def)
  show ?thesis using button_eventually_present [OF h t m] h t m by blast
qed

lemma auto_step_rerender_inv: "auto_step b b' \<Longrightarrow> rerender_inv b \<Longrightarrow> live_inv b'"
proof (induction rule: auto_step.induct)
  case (deliver b)
  show ?case
  proof (cases "live_inv b")
    case True
    then show ?thesis using chain_ext_live_inv [OF chain_ext_deliver] by blast
  next
    case False
    with deliver.prems have h: "header_actions (page b) \<noteq> None" "is_pr_path (pathname (page b))"
        "0 < body_records b" by (auto simp: rerender_inv_def)
    then show ?thesis using deliver_pending_records [OF h] chain_ext_deliver [of b]
      by (auto simp: live_inv_def chain_ext_def)
  qed
next
  case (job b)
  then have "live_inv b" by (auto simp: rerender_inv_def quiet_def)
  with job show ?case by (blast intro: auto_step_live_inv auto_step.job)
next
  case (timer b tt)
  then have "live_inv b" by (auto simp: rerender_inv_def quiet_def)
  with timer show ?case by (blast intro: auto_step_live_inv auto_step.timer)
qed

lemma auto_steps_rerender_inv: "auto_step\<^sup>*\<^sup>* b b' \<Longrightarrow> rerender_inv b \<Longrightarrow> rerender_inv b'"
proof (induction rule: rtranclp_induct)
  case base
  then show ?case .
next
  case (step b' b'')
  then show ?case using auto_step_rerender_inv by (auto simp: rerender_inv_def)
qed

text \<open>
  C8: Liveness after a re-render. Whenever mutation records are queued on a PR path
  whose header region is rendered (the host has rendered or replaced the page, for
  instance by navigating to a pull request), then without clicks or further re-renders
  some run reaches a state with nothing queued, and every run that does has inserted
  the button.
\<close>

theorem rerender_eventually_injects:
  assumes "header_actions (page b) \<noteq> None" and "is_pr_path (pathname (page b))"
    and "0 < body_records b"
  shows "(\<exists>b'. auto_step\<^sup>*\<^sup>* b b' \<and> idle b') \<and>
         (\<forall>b'. auto_step\<^sup>*\<^sup>* b b' \<longrightarrow> idle b' \<longrightarrow> get_element_by_id btn_id (page b'))"
proof -
  have "rerender_inv b" using assms by (simp add: rerender_inv_def)
  have "get_element_by_id btn_id (page b')" if "auto_step\<^sup>*\<^sup>* b b'" and "idle b'" for b'
  proof -
    from that(1) \<open>rerender_inv b\<close> have "rerender_inv b'" by (rule auto_steps_rerender_inv)
    with that(2) show ?thesis by (auto simp: rerender_inv_def live_inv_def idle_def quiet_def)
  qed
  then show ?thesis using auto_step_reaches_idle [of b] by blast
qed

lemma rerender_eventually_injects_witness:
  "header_actions (page ((script_start example_issue_page)\<lparr>page := example_pr_page,
      body_records := 3, doc_record := True\<rparr>)) \<noteq> None \<and>
   is_pr_path (pathname (page ((script_start example_issue_page)\<lparr>page := example_pr_page,
      body_records := 3, doc_record := True\<rparr>))) \<and>
   0 < body_records ((script_start example_issue_page)\<lparr>page := example_pr_page,
      body_records := 3, doc_record := True\<rparr>) \<and>
   (\<exists>b'. auto_step\<^sup>*\<^sup>* ((script_start example_issue_page)\<lparr>page := example_pr_page,
      body_records := 3, doc_record := True\<rparr>) b' \<and> idle b')"
proof -
  let ?b = "(script_start example_issue_page)\<lparr>page := example_pr_page,
      body_records := 3, doc_record := True\<rparr>"
  have h: "header_actions (page ?b) \<noteq> None" by (simp add: example_pr_page_def)
  have p: "is_pr_path (pathname (page ?b))"
    by (simp add: is_pr_path_def example_pr_page_def prefix_def)
  have r: "0 < body_records ?b" by simp
  show ?thesis using rerender_eventually_injects [OF h p r] h p r by blast
qed

subsection \<open>The body observer on a rendered page\<close>

text \<open>Once the header region is rendered, a second check changes nothing.\<close>

lemma check_rendered_twice:
  assumes "header_actions (page b) \<noteq> None"
  shows "check_and_add_button (check_and_add_button b) = check_and_add_button b"
proof (cases "pending_insert b")
  case True
  then show ?thesis using check_pending_btn [OF True]
    by (simp add: check_and_add_button_def [of "check_and_add_button b"] try_add_button_present)
next
  case False
  with assms have "check_and_add_button b = b"
    by (auto simp: pending_insert_def check_and_add_button_def try_add_button_present)
  then show ?thesis by simp
qed

lemma check_rendered_funpow:
  assumes "header_actions (page b) \<noteq> None"
  shows "(check_and_add_button ^^ Suc n) b = check_and_add_button b"
proof (induction n)
  case 0
  then show ?case by simp
next
  case (Suc n)
  then show ?case using check_rendered_twice [OF assms] by simp
qed

text \<open>
  C31: Equivalence of the observer loop with a single check on a rendered page. When
  the header region is rendered, the body observer's loop, one
  \<open>checkAndAddButton\<close> per record, does exactly what one call does, however many
  records were queued (on an unrendered page it does not: each record starts a chain).
\<close>

theorem body_observer_rendered:
  assumes "header_actions (page b) \<noteq> None"
  shows "body_observer b =
           (if body_records b = 0 then b else check_and_add_button (b\<lparr>body_records := 0\<rparr>))"
proof (cases "body_records b")
  case 0
  then show ?thesis by (simp add: body_observer_def)
next
  case (Suc n)
  then show ?thesis
    using check_rendered_funpow [of "b\<lparr>body_records := 0\<rparr>" n] assms
    by (simp add: body_observer_def)
qed

lemma body_observer_rendered_witness:
  "header_actions (page ((load_state example_pr_page)\<lparr>body_records := 5\<rparr>)) \<noteq> None \<and>
   body_observer ((load_state example_pr_page)\<lparr>body_records := 5\<rparr>) =
     check_and_add_button (load_state example_pr_page)"
proof -
  have h: "header_actions (page ((load_state example_pr_page)\<lparr>body_records := 5\<rparr>)) \<noteq> None"
    by (simp add: load_state_def example_pr_page_def)
  show ?thesis using body_observer_rendered [OF h] h by (simp add: load_state_def)
qed

end
