(* ===== verification/Timers.thy ===== *)
theory Timers
  imports Progress
begin

text \<open>
  The \<open>setTimeout\<close> queue of the script is well formed in every reachable state: a
  pending timer is never overdue, the retry chain's counter stays in
  \<open>1..maxAttempts\<close> (the first run of \<open>tryAddButton\<close> is synchronous, line 146,
  so no timer carries 0), and the notification timers (content.js lines 87--93) refer to
  notifications that exist or existed. The per-operation lemmas mirror those of
  \<open>script_inv\<close>; the time part uses that the event loop fires the earliest timer.
  With the termination of the script's own work (theory \<open>Progress\<close>) it follows that
  every notification is eventually removed.
\<close>

primrec task_wf :: "nat \<Rightarrow> task \<Rightarrow> bool" where
  "task_wf c (TryAddButton k) \<longleftrightarrow> 0 < k \<and> k \<le> max_attempts"
| "task_wf c (FadeToast n) \<longleftrightarrow> n < c"
| "task_wf c (RemoveToast n) \<longleftrightarrow> n < c"

definition timer_wf :: "browser \<Rightarrow> nat \<times> task \<Rightarrow> bool" where
  "timer_wf b tt \<longleftrightarrow> clock b \<le> fst tt \<and> task_wf (toast_counter b) (snd tt)"

definition timers_wf :: "browser \<Rightarrow> bool" where
  "timers_wf b \<longleftrightarrow> (\<forall>tt\<in>set (timers b). timer_wf b tt)"

lemma timers_wf_fields [simp]:
  "timers_wf (b\<lparr>page := p\<rparr>) = timers_wf b"
  "timers_wf (b\<lparr>body_records := r\<rparr>) = timers_wf b"
  "timers_wf (b\<lparr>doc_record := d\<rparr>) = timers_wf b"
  "timers_wf (b\<lparr>last_url := u\<rparr>) = timers_wf b"
  "timers_wf (b\<lparr>jobs := j\<rparr>) = timers_wf b"
  "timers_wf (b\<lparr>clipboard := c\<rparr>) = timers_wf b"
  by (simp_all add: timers_wf_def timer_wf_def)

text \<open>Every notification in the document still has its fade or its removal pending.\<close>

definition toasts_scheduled :: "browser \<Rightarrow> bool" where
  "toasts_scheduled b \<longleftrightarrow>
     (\<forall>t\<in>set (toasts (page b)). \<exists>tt\<in>set (timers b).
        snd tt = FadeToast (toast_no t) \<or> snd tt = RemoveToast (toast_no t))"

text \<open>Appending well-formed timers, with the clock kept and the counter not decreased.\<close>

lemma task_wf_mono: "task_wf c t \<Longrightarrow> c \<le> c' \<Longrightarrow> task_wf c' t"
  by (cases t) simp_all

lemma timers_wf_grow:
  assumes "timers_wf b" and "clock b' = clock b" and "toast_counter b \<le> toast_counter b'"
    and "timers b' = timers b @ ts" and "\<forall>tt\<in>set ts. timer_wf b' tt"
  shows "timers_wf b'"
  using assms by (auto simp: timers_wf_def timer_wf_def intro: task_wf_mono)

lemma try_add_button_clock [simp]: "clock (try_add_button k b) = clock b"
  by (simp add: try_add_button_def Let_def set_timeout_def)

lemma timers_wf_try_add_button: "timers_wf b \<Longrightarrow> timers_wf (try_add_button k b)"
  by (rule timers_wf_grow [OF _ _ _ try_add_button_timers]) (simp_all add: timer_wf_def)

lemma timers_wf_check: "timers_wf b \<Longrightarrow> timers_wf (check_and_add_button b)"
  by (simp add: check_and_add_button_def timers_wf_try_add_button)

lemma timers_wf_check_funpow: "timers_wf b \<Longrightarrow> timers_wf ((check_and_add_button ^^ n) b)"
  by (induction n) (simp_all add: timers_wf_check)

lemma timers_wf_deliver: "timers_wf b \<Longrightarrow> timers_wf (deliver_mutations b)"
  by (simp add: deliver_mutations_def body_observer_def doc_observer_def Let_def
      timers_wf_check timers_wf_check_funpow)

lemma timers_wf_show_notification: "timers_wf b \<Longrightarrow> timers_wf (show_notification m b)"
  by (rule timers_wf_grow [where ts = "[(clock b + 3000, FadeToast (toast_counter b))]"])
    (simp_all add: timer_wf_def)

lemma timers_wf_run_job: "timers_wf b \<Longrightarrow> timers_wf (run_job b)"
  by (simp add: run_job_def timers_wf_show_notification split: list.split)

lemma timers_wf_click: "timers_wf b \<Longrightarrow> timers_wf (handle_button_click env b)"
  by (auto simp: handle_button_click_def Let_def timers_wf_show_notification
      split: sum.split prod.split copy_outcome.split)

lemma earliest_le: "earliest xs = Some tt \<Longrightarrow> x \<in> set xs \<Longrightarrow> fst tt \<le> fst x"
  by (induction xs arbitrary: tt) (fastforce split: option.splits if_splits)+

lemma timers_wf_fire_timer:
  assumes "timers_wf b" and "earliest (timers b) = Some tt"
  shows "timers_wf (fire_timer tt b)"
proof -
  have tt: "tt \<in> set (timers b)" using assms(2) by (rule earliest_in)
  let ?b0 = "b\<lparr>clock := max (clock b) (fst tt), timers := remove1 tt (timers b)\<rparr>"
  have c: "clock ?b0 = fst tt" using assms(1) tt by (auto simp: timers_wf_def timer_wf_def)
  have w0: "timers_wf ?b0"
    using assms c earliest_le [OF assms(2)]
    by (auto simp: timers_wf_def timer_wf_def dest: subsetD [OF set_remove1_subset])
  have wt: "timer_wf b tt" using assms(1) tt by (simp add: timers_wf_def)
  show ?thesis
  proof (cases "snd tt")
    case (TryAddButton k)
    then show ?thesis using w0 by (simp add: fire_timer_def timers_wf_try_add_button)
  next
    case (FadeToast n)
    then have "n < toast_counter ?b0" using wt by (simp add: timer_wf_def)
    then show ?thesis using FadeToast
      by (intro timers_wf_grow [OF w0, where ts = "[(clock ?b0 + 500, RemoveToast n)]"])
        (simp_all add: fire_timer_def fade_toast_def set_timeout_def timer_wf_def)
  next
    case (RemoveToast n)
    then show ?thesis using w0
      by (simp add: fire_timer_def remove_toast_def note_child_list_def timers_wf_def timer_wf_def)
  qed
qed

lemma timers_wf_step: "script_step b b' \<Longrightarrow> timers_wf b \<Longrightarrow> timers_wf b'"
proof (induction rule: script_step.induct)
  case (deliver b)
  then show ?case by (simp add: timers_wf_deliver)
next
  case (job b)
  then show ?case by (simp add: timers_wf_run_job)
next
  case (timer b tt)
  then show ?case by (simp add: timers_wf_fire_timer)
next
  case (click b env)
  then show ?case by (simp add: timers_wf_click)
next
  case (host b p k d)
  then show ?case by simp
next
  case (tick b t)
  then show ?case by (auto simp: timers_wf_def timer_wf_def)
qed

lemma reachable_timers_wf: "reachable b \<Longrightarrow> timers_wf b"
proof (induction rule: reachable.induct)
  case (start p)
  have "timers_wf (load_state p)" by (simp add: timers_wf_def load_state_def)
  then show ?case by (simp add: script_start_def timers_wf_check)
next
  case (step b b')
  then show ?case by (blast intro: timers_wf_step)
qed

text \<open>
  C35: The timer queue is well formed. In every reachable state each pending
  \<open>setTimeout\<close> is due no earlier than the current time (no callback fires late),
  every retry carries a counter between 1 and \<open>maxAttempts\<close>, and every fade or
  removal timer names a notification that has already been created.
\<close>

theorem reachable_timer_wf:
  assumes "reachable b" and "tt \<in> set (timers b)"
  shows "clock b \<le> fst tt \<and> task_wf (toast_counter b) (snd tt)"
  using reachable_timers_wf [OF assms(1)] assms(2) by (simp add: timers_wf_def timer_wf_def)

lemma reachable_timer_wf_witness:
  "reachable (script_start example_loading_page) \<and>
   (1000, TryAddButton 1) \<in> set (timers (script_start example_loading_page)) \<and>
   clock (script_start example_loading_page) \<le> 1000 \<and>
   task_wf (toast_counter (script_start example_loading_page)) (TryAddButton 1)"
proof -
  have r: "reachable (script_start example_loading_page)"
    by (rule reachable.start) (simp_all add: example_loading_page_def example_pr_page_def
        btn_count_def doc_ids_def btn_id_def)
  have t: "(1000, TryAddButton 1) \<in> set (timers (script_start example_loading_page))"
    by (simp add: script_start_def check_and_add_button_def try_add_button_def is_pr_path_def
        load_state_def example_loading_page_def example_pr_page_def add_button_absent
        max_attempts_def set_timeout_def prefix_def get_element_by_id_def doc_ids_def btn_id_def)
  show ?thesis using reachable_timer_wf [OF r t] r t by simp
qed

subsection \<open>Notifications are removed\<close>

lemma toasts_scheduled_mono:
  assumes "toasts_scheduled b" and "set (toasts (page b')) \<subseteq> set (toasts (page b))"
    and "set (timers b) \<subseteq> set (timers b')"
  shows "toasts_scheduled b'"
  using assms unfolding toasts_scheduled_def by blast

lemma toasts_scheduled_chain_ext: "chain_ext b b' \<Longrightarrow> toasts_scheduled b \<Longrightarrow> toasts_scheduled b'"
  by (erule toasts_scheduled_mono) (auto simp: chain_ext_def)

lemma toasts_scheduled_show: "toasts_scheduled b \<Longrightarrow> toasts_scheduled (show_notification m b)"
  by (auto simp: toasts_scheduled_def)

lemma toasts_scheduled_fields [simp]:
  "toasts_scheduled (b\<lparr>jobs := j\<rparr>) = toasts_scheduled b"
  "toasts_scheduled (b\<lparr>clipboard := c\<rparr>) = toasts_scheduled b"
  "toasts_scheduled (b\<lparr>clock := t\<rparr>) = toasts_scheduled b"
  by (simp_all add: toasts_scheduled_def)

lemma toasts_scheduled_run_job: "toasts_scheduled b \<Longrightarrow> toasts_scheduled (run_job b)"
  by (simp add: run_job_def toasts_scheduled_show split: list.split)

lemma toasts_scheduled_click: "toasts_scheduled b \<Longrightarrow> toasts_scheduled (handle_button_click env b)"
  by (auto simp: handle_button_click_def Let_def toasts_scheduled_show
      split: sum.split prod.split copy_outcome.split)

lemma toasts_scheduled_fire_timer:
  assumes "toasts_scheduled b" and "tt \<in> set (timers b)"
  shows "toasts_scheduled (fire_timer tt b)"
proof -
  let ?b0 = "b\<lparr>clock := max (clock b) (fst tt), timers := remove1 tt (timers b)\<rparr>"
  have kept: "\<exists>tt'\<in>set (timers ?b0). snd tt' = FadeToast (toast_no t) \<or> snd tt' = RemoveToast (toast_no t)"
    if "t \<in> set (toasts (page b))" and "snd tt \<noteq> FadeToast (toast_no t)"
      and "snd tt \<noteq> RemoveToast (toast_no t)" for t
  proof -
    from assms(1) that(1) obtain tt' where "tt' \<in> set (timers b)"
      "snd tt' = FadeToast (toast_no t) \<or> snd tt' = RemoveToast (toast_no t)"
      by (auto simp: toasts_scheduled_def)
    moreover from this that(2,3) have "tt' \<noteq> tt" by auto
    ultimately show ?thesis by (auto simp: in_set_remove1)
  qed
  show ?thesis
  proof (cases "snd tt")
    case (TryAddButton k)
    have "toasts_scheduled ?b0" using kept TryAddButton by (auto simp: toasts_scheduled_def)
    then show ?thesis using TryAddButton toasts_scheduled_chain_ext [OF chain_ext_try_add_button]
      by (simp add: fire_timer_def)
  next
    case (FadeToast n)
    then show ?thesis using kept
      by (fastforce simp: fire_timer_def fade_toast_def set_timeout_def toasts_scheduled_def)
  next
    case (RemoveToast n)
    then show ?thesis using kept
      by (fastforce simp: fire_timer_def remove_toast_def note_child_list_def toasts_scheduled_def)
  qed
qed

lemma toasts_scheduled_step: "script_step b b' \<Longrightarrow> toasts_scheduled b \<Longrightarrow> toasts_scheduled b'"
proof (induction rule: script_step.induct)
  case (deliver b)
  then show ?case using toasts_scheduled_chain_ext [OF chain_ext_deliver] by blast
next
  case (job b)
  then show ?case by (simp add: toasts_scheduled_run_job)
next
  case (timer b tt)
  then show ?case by (simp add: toasts_scheduled_fire_timer earliest_in)
next
  case (click b env)
  then show ?case by (simp add: toasts_scheduled_click)
next
  case (host b p k d)
  then show ?case
    by (auto simp: toasts_scheduled_def dest: subseq_set [THEN subsetD])
next
  case (tick b t)
  then show ?case by simp
qed

lemma reachable_toasts_scheduled: "reachable b \<Longrightarrow> toasts_scheduled b"
proof (induction rule: reachable.induct)
  case (start p)
  then show ?case
    by (simp add: toasts_scheduled_def script_start_def check_and_add_button_def load_state_def)
next
  case (step b b')
  then show ?case by (blast intro: toasts_scheduled_step)
qed

text \<open>
  C16: Every notification goes away. From every reachable state, without clicks or
  re-renders, some run reaches a state with nothing queued, and in every such state no
  notification is left in the document: each one made by \<open>showNotification\<close> keeps its
  fade or its removal timer pending until the removal has detached it.
\<close>

theorem notifications_eventually_removed:
  assumes "reachable b"
  shows "(\<exists>b'. auto_step\<^sup>*\<^sup>* b b' \<and> idle b') \<and>
         (\<forall>b'. auto_step\<^sup>*\<^sup>* b b' \<longrightarrow> idle b' \<longrightarrow> toasts (page b') = [])"
proof -
  have "toasts (page b') = []" if "auto_step\<^sup>*\<^sup>* b b'" and "idle b'" for b'
  proof -
    from that(1) have "toasts_scheduled b'"
    proof (induction rule: rtranclp_induct)
      case base
      then show ?case using assms by (rule reachable_toasts_scheduled)
    next
      case (step y z)
      then show ?case by (blast intro: toasts_scheduled_step auto_step_script_step)
    qed
    with that(2) show ?thesis by (cases "toasts (page b')") (auto simp: toasts_scheduled_def idle_def)
  qed
  then show ?thesis using auto_step_reaches_idle [of b] by blast
qed

lemma notifications_eventually_removed_witness:
  "reachable (handle_button_click full_api (deliver_mutations (script_start example_pr_page))) \<and>
   toasts (page (handle_button_click full_api (deliver_mutations (script_start example_pr_page)))) \<noteq> [] \<and>
   (\<exists>b'. auto_step\<^sup>*\<^sup>* (handle_button_click full_api (deliver_mutations (script_start example_pr_page))) b' \<and>
      idle b')"
proof -
  let ?s = "script_start example_pr_page"
  let ?b1 = "deliver_mutations ?s"
  have pi: "pending_insert (load_state example_pr_page)"
    by (simp add: pending_insert_def is_pr_path_def load_state_def example_pr_page_def prefix_def
        get_element_by_id_def doc_ids_def btn_id_def)
  have btn: "get_element_by_id btn_id (page ?s)"
    using check_pending_btn [OF pi] by (simp add: script_start_def)
  have nq: "\<not> quiet ?s"
    using check_insert [OF pi] by (simp add: script_start_def quiet_def load_state_def)
  have q1: "quiet ?b1" and btn1: "get_element_by_id btn_id (page ?b1)"
    using deliver_inserts_or_quiet [of ?s] btn by auto
  have r1: "reachable ?b1"
    using reachable.step [OF reachable_example_start(1) script_step.deliver [OF nq]] .
  have r2: "reachable (handle_button_click full_api ?b1)"
    using reachable.step [OF r1 script_step.click [OF q1 btn1]] .
  have "toasts (page (handle_button_click full_api ?b1)) \<noteq> []"
    by (auto simp: handle_button_click_def Let_def split: sum.split prod.split copy_outcome.split)
  then show ?thesis using notifications_eventually_removed [OF r2] r2 by blast
qed

end
