(* ===== verification/Spec2Isabelle.thy ===== *)
theory Spec2Isabelle
  imports Timers
begin

text \<open>
  Verification of the GitHub PR link content script
  \<open>src/Shared (Extension)/Resources/content.js\<close>, a browser-extension script that adds a
  "Copy PR Link" button to a pull-request page and, on a click, copies an HTML anchor
  and a plain-text summary of the pull request to the clipboard.

  \<^bold>\<open>The program.\<close> Five parts, leaves first: the page-data extractor
  (\<open>getRepoInfo\<close>, \<open>generatePRLink\<close>, lines 1--47), the link formatter (the template
  literals of lines 39 and 42), the clipboard writer (\<open>copyToClipboard\<close>, lines 49--73),
  the notification presenter (\<open>showNotification\<close>, lines 75--95) and the injection
  controller (\<open>addButton\<close>, \<open>checkAndAddButton\<close>, \<open>tryAddButton\<close>, lines 111--148).
  The click handler (\<open>handleButtonClick\<close>, lines 98--108) chains extractor, formatter,
  clipboard writer and presenter; two \<open>MutationObserver\<close>s (lines 150--173) re-run
  the controller on every \<open>childList\<close> record and on every change of
  \<open>location.href\<close>; \<open>setTimeout\<close> drives the retries and the notification fades.

  \<^bold>\<open>Theories.\<close>
  \<^item> \<open>Prelude\<close>: JavaScript values (strings as lists of code units, \<open>null\<close> as
    \<open>None\<close>, thrown values as the \<open>Inl\<close> side of \<open>js_error + 'a\<close>) and the built-ins
    \<open>split\<close>, \<open>trim\<close>, \<open>includes\<close> as executable functions, with their lemmas
    (split/join round trip, trim idempotent and exact, \<open>includes\<close> equal to
    \<open>sublist\<close>).
  \<^item> \<open>Page\<close>: the interface all components act on. Record \<open>page\<close> is the document
    as the script queries it (meta element, the three header texts, the children of
    \<open>.gh-header-actions\<close>, the other ids, the notifications, \<open>location\<close>); record
    \<open>browser\<close> adds the event-loop state (clock, \<open>setTimeout\<close> queue of \<open>task\<close>s,
    pending promise reactions, queued mutation records of the two observers, system
    clipboard, the global \<open>lastUrl\<close>, a serial number for notifications).
  \<^item> \<open>Formatter\<close>: \<open>plain_text_of\<close>, \<open>rich_link_of\<close>, \<open>pr_link\<close>; the markup
    round trip (\<open>parse_anchor\<close>) and the text a browser shows (\<open>html_text\<close>, whose
    termination is proved by a length measure).
  \<^item> \<open>Extractor\<close>: \<open>get_repo_info\<close>, \<open>generate_pr_link\<close>; every branch, the URL
    fallback, the error conditions, non-empty fields on well-formed pages.
  \<^item> \<open>Clipboard\<close>: \<open>copy_to_clipboard\<close> against an environment \<open>clip_env\<close> of
    available methods and promise outcomes, returning the synchronous throw or the
    settled value and the ordered list of clipboard calls; \<open>apply_calls\<close> gives the
    clipboard afterwards.
  \<^item> \<open>Notification\<close>: \<open>show_notification\<close> and its two timer callbacks
    \<open>fade_toast\<close> (3000 ms) and \<open>remove_toast\<close> (500 ms later).
  \<^item> \<open>Injection\<close>: the controller as state transformers of \<open>browser\<close>. Each call of
    \<open>checkAndAddButton\<close> starts a retry chain whose \<open>attempts\<close> variable travels in
    its pending task \<open>TryAddButton k\<close>; \<open>chain_runs\<close> counts the runs of one chain
    over any sequence of page states, which bounds it by \<open>maxAttempts + 1 = 11\<close>.
    The specification's controller states (\<open>inj_state\<close>: awaiting injection with a
    budget, injected, given up) form the inductive relation \<open>inj_spec\<close>;
    \<open>chain_abs\<close> abstracts the result of one \<open>tryAddButton\<close> run; every run
    is a step of \<open>inj_spec\<close>, and a whole chain, over any page states between its
    timers, is a run \<open>inj_run\<close> of the machine (\<open>chain_refines\<close>). The console output of
    the controller (lines 120, 122, 133) is the observation \<open>add_button_log\<close> /
    \<open>try_add_button_log\<close>, kept apart from the state since logging changes nothing;
    likewise \<open>generate_pr_link_log\<close> (Extractor) and \<open>copy_to_clipboard_log\<close>
    (Clipboard), over the shared \<open>console_entry\<close> of the Prelude, so every
    \<open>console.log\<close> and \<open>console.error\<close> of the script is modelled.
  \<^item> \<open>Script\<close>: \<open>handle_button_click\<close>, \<open>run_job\<close>, the observers
    (\<open>body_observer\<close>, \<open>doc_observer\<close>, \<open>deliver_mutations\<close>), timer dispatch,
    and the event loop \<open>script_step\<close> with its reachable states \<open>reachable\<close> from
    \<open>script_start\<close>. The invariant \<open>script_inv\<close> (at most one button, fresh
    notification numbers, retry counters within the limit) is kept by every operation and
    so holds in every reachable state, by rule induction. The observers settle: an
    insertion made while handling a delivery queues records once more, and the delivery
    of those inserts nothing, so two deliveries leave both queues empty
    (\<open>deliveries_settle\<close>).
  \<^item> \<open>Progress\<close>: the event loop without clicks or host re-renders
    (\<open>auto_step\<close>). Termination by the lexicographic measure \<open>loop_rank\<close> (pending
    notification work, button missing, records queued, retry budget), finished states
    are exactly the \<open>idle\<close> ones, and liveness: with the header region rendered and a
    retry with budget pending, every complete run inserts the button; the same holds
    whenever mutation records are queued on a PR path with a rendered header region
    (\<open>rerender_eventually_injects\<close>, the case of a re-render or an SPA
    navigation). Also: on a
    rendered page the body observer's per-record loop equals a single check.
  \<^item> \<open>Timers\<close>: the \<open>setTimeout\<close> queue is well formed in every reachable state
    (never overdue, retry counters in \<open>1..maxAttempts\<close>, notification timers naming
    created notifications), and every notification is eventually removed
    (\<open>notifications_eventually_removed\<close>).
  \<^item> \<open>Spec2Isabelle\<close> (this theory): properties that span components: the
    outcomes of a click (every click is answered by exactly
    one outcome message), and runs of the event loop.

  \<^bold>\<open>The event loop.\<close> A step delivers the queued mutation records (before anything
  else may run), runs a queued promise reaction, fires the earliest timer (ties in queue
  order), lets the user click the button, lets time pass up to the next due timer, or lets
  the host page re-render: replace the page arbitrarily, with any number of mutation
  records, provided it never itself produces two elements with the button's id and only
  removes the script's notifications. The clipboard writes of a click take effect at the
  click; their promise's reaction runs later as a job. Clicks are the only source of
  concurrency in the source, and jobs may interleave with everything else.

  \<^bold>\<open>Bounds.\<close> No fuel is used: every loop of the source is either the bounded retry
  chain (counter at most \<open>maxAttempts = 10\<close>, proved) or a \<open>for\<close> over the records
  of one delivery (\<open>funpow\<close> over their number). Counters are \<open>nat\<close>: the script's
  numbers are small JavaScript numbers and never overflow. The script's own work as a
  whole terminates (\<open>event_loop_terminates\<close>), so no fuel is needed for runs either.

  \<^bold>\<open>Not modelled.\<close> How GitHub renders the host page: it is environment, not
  code of the repository, so its re-renders are arbitrary steps (any page, any records)
  under the two constraints stated above, and only what the script reads of the page is
  modelled. The inline CSS of a notification (\<open>cssText\<close>, lines 78--88): it is
  presentation, read by nothing in the script; the one change the script makes to it,
  \<open>opacity = '0'\<close> (line 92), is the flag \<open>toast_faded\<close>. The objects passed to \<open>console\<close> after the message; character references in HTML (\<open>html_text\<close> does not decode them, so the
  statements about the shown text assume a plain text without \<open>&\<close>);
  white space beyond U+00FF for \<open>trim\<close>; the exact wording of engine errors (a fixed
  text is used); the time a clipboard write takes (a write settles at the click, and its
  promise reaction runs as a later job).

  \<^bold>\<open>Findings.\<close> A retry outlives a navigation and inserts the button on a non-PR
  page (\<open>retry_after_navigation\<close>); the rich link is not HTML-escaped
  (\<open>pr_link_markup_not_escaped\<close>); without \<open>navigator.clipboard\<close> the user sees
  an engine \<open>TypeError\<close> instead of the copy-manually message
  (\<open>click_no_clipboard_api\<close>); every mutation record starts its own retry chain
  (\<open>delivery_spawns_chains\<close>); a meta element without \<open>content\<close> yields the text
  \<open>null\<close> (\<open>generate_pr_link_null_repo\<close>); blank elements give empty fields
  (\<open>generate_pr_link_blank_title\<close>); the PR-page test accepts any path containing
  \<open>/pull/\<close>, such as an issue of a repository named \<open>pull\<close>
  (\<open>pull_repo_issue_gets_button\<close>); without \<open>ClipboardItem\<close> the copy throws
  and the available \<open>writeText\<close> fallback is not tried
  (\<open>copy_no_clipboard_item_throws\<close>); a chain that reaches the limit logs "Button not
  added" without looking at the document (\<open>try_add_button_gives_up\<close>).
\<close>

section \<open>Properties across components\<close>

text \<open>What one run of \<open>checkAndAddButton\<close> does on a PR page whose header region has
  not been rendered: it only queues a fresh retry chain.\<close>

lemma check_and_add_button_unrendered:
  assumes "is_pr_path (pathname (page b))" and "header_actions (page b) = None"
    and "\<not> get_element_by_id btn_id (page b)"
  shows "check_and_add_button b = set_timeout 1000 (TryAddButton 1) b"
  using assms
  by (simp add: check_and_add_button_def try_add_button_def add_button_absent max_attempts_def)

lemma check_and_add_button_unrendered_funpow:
  assumes "is_pr_path (pathname (page b))" and "header_actions (page b) = None"
    and "\<not> get_element_by_id btn_id (page b)"
  shows "(check_and_add_button ^^ n) b =
           b\<lparr>timers := timers b @ replicate n (clock b + 1000, TryAddButton 1)\<rparr>"
proof (induction n)
  case 0
  then show ?case by simp
next
  case (Suc n)
  have "check_and_add_button (b\<lparr>timers := timers b @ replicate n (clock b + 1000, TryAddButton 1)\<rparr>)
        = set_timeout 1000 (TryAddButton 1)
            (b\<lparr>timers := timers b @ replicate n (clock b + 1000, TryAddButton 1)\<rparr>)"
    using assms by (intro check_and_add_button_unrendered) simp_all
  with Suc show ?case
    by (simp add: set_timeout_def replicate_append_same)
qed

text \<open>
  C2: A successful click. When extraction succeeds and the rich write is fulfilled,
  the click shows "Generating PR link...", puts the HTML anchor on the clipboard, and the
  promise reaction, when it runs, shows the rich-success message after it.
\<close>

theorem click_copies_rich_link:
  assumes "generate_pr_link (page b) = Inr l" and "jobs b = []"
    and "nav_clipboard env = Some api" and "write_fn api = Some True"
    and "clipboard_item_defined env"
  shows "clipboard (handle_button_click env b) = Some (ClipHtml (richLink l)) \<and>
         toasts (page (run_job (handle_button_click env b))) =
           toasts (page b) @ [Toast (toast_counter b) generating_msg False,
                              Toast (Suc (toast_counter b)) rich_ok_msg False]"
  using assms
  by (simp add: handle_button_click_def show_notification_page clipboard_defs run_job_def)

lemma click_copies_rich_link_witness:
  "generate_pr_link (page (script_start example_pr_page)) =
     Inr (pr_link ''https://github.com/octo/hello/pull/42'' ''Fix bug'' ''alice'' ''#42''
            (Some ''octo/hello'')) \<and>
   jobs (script_start example_pr_page) = [] \<and>
   nav_clipboard full_api = Some \<lparr>write_fn = Some True, write_text_fn = Some True\<rparr> \<and>
   write_fn \<lparr>write_fn = Some True, write_text_fn = Some True\<rparr> = Some True \<and>
   clipboard_item_defined full_api \<and>
   clipboard (handle_button_click full_api (script_start example_pr_page)) =
     Some (ClipHtml (richLink (pr_link ''https://github.com/octo/hello/pull/42'' ''Fix bug''
       ''alice'' ''#42'' (Some ''octo/hello''))))"
proof -
  have s: "page (script_start example_pr_page) = example_pr_page\<lparr>header_actions :=
      Some [pr_link_button, Elem ''button'' None ''btn btn-sm'' ''Edit'' False]\<rparr>"
    "jobs (script_start example_pr_page) = []"
    by (simp_all add: script_start_def check_and_add_button_def is_pr_path_def
        try_add_button_def add_button_def load_state_def example_pr_page_def
        get_element_by_id_def doc_ids_def btn_id_def pr_link_button_def max_attempts_def
        note_child_list_def prefix_def)
  have g: "generate_pr_link (page (script_start example_pr_page)) =
     Inr (pr_link ''https://github.com/octo/hello/pull/42'' ''Fix bug'' ''alice'' ''#42''
            (Some ''octo/hello''))"
    unfolding s(1)
    by (simp add: generate_pr_link_def get_repo_info_def example_pr_page_def js_trim_def
        is_js_space_def)
  show ?thesis
    using click_copies_rich_link [OF g s(2), of full_api] g s(2) by (simp add: full_api_def)
qed

text \<open>
  C21: A failed extraction. When \<open>generatePRLink\<close> throws, the handler shows
  "Generating PR link..." and then "An error occurred: " with the error's message; the
  clipboard is not touched and no promise reaction is queued.
\<close>

theorem click_extraction_error:
  assumes "generate_pr_link (page b) = Inl e"
  shows "handle_button_click env b =
           show_notification (error_prefix @ err_message e) (show_notification generating_msg b)"
  using assms by (simp add: handle_button_click_def show_notification_page)

lemma click_extraction_error_witness:
  "generate_pr_link (page (load_state (example_pr_page\<lparr>author_el := None\<rparr>))) =
     Inl (Error ''Could not find required PR elements'') \<and>
   toasts (page (handle_button_click full_api (load_state (example_pr_page\<lparr>author_el := None\<rparr>)))) =
     [Toast 0 generating_msg False,
      Toast 1 (error_prefix @ ''Could not find required PR elements'') False]"
proof -
  have g: "generate_pr_link (page (load_state (example_pr_page\<lparr>author_el := None\<rparr>))) =
     Inl (Error ''Could not find required PR elements'')"
    by (simp add: load_state_def generate_pr_link_def example_pr_page_def)
  show ?thesis
    using click_extraction_error [OF g, of full_api] g
    by (simp add: load_state_def example_pr_page_def)
qed

text \<open>
  C25: No clipboard API at all. When \<open>navigator.clipboard\<close> is undefined, the
  engine's \<open>TypeError\<close> reaches the handler's \<open>catch\<close>, and the user sees
  "An error occurred: " followed by the engine's message, not the
  "Failed to copy. Please copy manually." the specification promises for an unavailable
  clipboard.
\<close>

theorem click_no_clipboard_api:
  assumes "generate_pr_link (page b) = Inr l" and "nav_clipboard env = None"
  shows "handle_button_click env b =
           show_notification (error_prefix @ err_message no_clipboard_error)
             (show_notification generating_msg b)"
  using assms
  by (simp add: handle_button_click_def show_notification_page copy_to_clipboard_def)

lemma click_no_clipboard_api_witness:
  "generate_pr_link (page (load_state example_pr_page)) =
     Inr (pr_link ''https://github.com/octo/hello/pull/42'' ''Fix bug'' ''alice'' ''#42''
            (Some ''octo/hello'')) \<and>
   nav_clipboard (full_api\<lparr>nav_clipboard := None\<rparr>) = None \<and>
   toasts (page (handle_button_click (full_api\<lparr>nav_clipboard := None\<rparr>) (load_state example_pr_page))) =
     [Toast 0 generating_msg False, Toast 1 (error_prefix @ err_message no_clipboard_error) False]"
proof -
  have g: "generate_pr_link (page (load_state example_pr_page)) =
     Inr (pr_link ''https://github.com/octo/hello/pull/42'' ''Fix bug'' ''alice'' ''#42''
            (Some ''octo/hello''))"
    by (simp add: load_state_def generate_pr_link_def get_repo_info_def example_pr_page_def
        js_trim_def is_js_space_def)
  have n: "nav_clipboard (full_api\<lparr>nav_clipboard := None\<rparr>) = None" by simp
  show ?thesis
    using click_no_clipboard_api [OF g n] g n by (simp add: load_state_def example_pr_page_def)
qed

text \<open>
  C22: A retry outlives a navigation. \<open>tryAddButton\<close> does not re-check the path
  when its timer fires: in any reachable state where a retry with budget left is due
  next, the header region is rendered and the button is missing, firing the retry
  prepends the script's button to the header region, whatever the current path is. The
  witness is a run that loads the unrendered PR page, navigates to
  \<open>/octo/hello/issues/3\<close> and delivers the mutation records: the retry then inserts
  the button on the issue page.
\<close>

theorem retry_after_navigation:
  assumes "reachable b" and "quiet b" and "earliest (timers b) = Some (d, TryAddButton k)"
    and "k < max_attempts" and "header_actions (page b) = Some cs"
    and "\<not> get_element_by_id btn_id (page b)"
  shows "reachable (fire_timer (d, TryAddButton k) b) \<and>
         header_actions (page (fire_timer (d, TryAddButton k) b)) = Some (pr_link_button # cs) \<and>
         pathname (page (fire_timer (d, TryAddButton k) b)) = pathname (page b)"
proof -
  let ?b0 = "b\<lparr>clock := max (clock b) d, timers := remove1 (d, TryAddButton k) (timers b)\<rparr>"
  have f: "fire_timer (d, TryAddButton k) b = add_button ?b0"
    using assms(4,5,6) add_button_found [of ?b0]
    by (simp add: fire_timer_def try_add_button_def Let_def)
  have "reachable (fire_timer (d, TryAddButton k) b)"
    using reachable.step [OF assms(1) script_step.timer [OF assms(2,3)]] .
  moreover have "header_actions (page (add_button ?b0)) = Some (pr_link_button # cs) \<and>
      pathname (page (add_button ?b0)) = pathname (page b)"
    using assms(5,6) by (simp add: add_button_def note_child_list_def)
  ultimately show ?thesis by (simp add: f)
qed

lemma retry_after_navigation_witness:
  "\<exists>b. reachable b \<and> \<not> is_pr_path (pathname (page b)) \<and> quiet b \<and>
       earliest (timers b) = Some (1000, TryAddButton 1) \<and> 1 < max_attempts \<and>
       header_actions (page b) = Some [Elem ''button'' None ''btn btn-sm'' ''Edit'' False] \<and>
       \<not> get_element_by_id btn_id (page b) \<and>
       header_actions (page (fire_timer (1000, TryAddButton 1) b)) =
         Some [pr_link_button, Elem ''button'' None ''btn btn-sm'' ''Edit'' False]"
proof -
  let ?b1 = "script_start example_loading_page"
  let ?b2 = "?b1\<lparr>page := example_issue_page, body_records := 1, doc_record := (True \<or> 0 < (1::nat))\<rparr>"
  let ?b3 = "deliver_mutations ?b2"
  note defs = script_start_def check_and_add_button_def is_pr_path_def try_add_button_def
    add_button_def load_state_def example_loading_page_def example_pr_page_def
    example_issue_page_def get_element_by_id_def doc_ids_def btn_id_def max_attempts_def
    set_timeout_def note_child_list_def prefix_def btn_count_def
  have r1: "reachable ?b1" by (rule reachable_example_start(2))
  have "script_step ?b1 ?b2"
    by (rule script_step.host) (simp_all add: defs quiet_def)
  with r1 have r2: "reachable ?b2" by (rule reachable.step)
  have "script_step ?b2 ?b3"
    by (rule script_step.deliver) (simp add: quiet_def)
  with r2 have r3: "reachable ?b3" by (rule reachable.step)
  have b3: "?b3 = ?b1\<lparr>page := example_issue_page, last_url := href example_issue_page\<rparr>"
    by (simp add: deliver_mutations_def body_observer_def doc_observer_def defs Let_def)
  have q3: "quiet ?b3" unfolding b3 by (simp add: defs quiet_def)
  have e3: "earliest (timers ?b3) = Some (1000, TryAddButton 1)" unfolding b3 by (simp add: defs)
  have m: "1 < max_attempts" by (simp add: max_attempts_def)
  have h3: "header_actions (page ?b3) = Some [Elem ''button'' None ''btn btn-sm'' ''Edit'' False]"
    unfolding b3 by (simp add: defs)
  have n3: "\<not> get_element_by_id btn_id (page ?b3)" unfolding b3 by (simp add: defs)
  have p3: "\<not> is_pr_path (pathname (page ?b3))" unfolding b3 by (simp add: defs)
  show ?thesis
    using retry_after_navigation [OF r3 q3 e3 m h3 n3] r3 q3 e3 m h3 n3 p3 by blast
qed

text \<open>
  C26: Every mutation record starts its own retry chain. On a PR path whose header
  region is not rendered, one delivery of \<open>n\<close> records to the body observer queues
  \<open>n\<close> independent retries with fresh counters: the attempt budget is per call of
  \<open>checkAndAddButton\<close>, not per page.
\<close>

theorem delivery_spawns_chains:
  assumes "is_pr_path (pathname (page b))" and "header_actions (page b) = None"
    and "\<not> get_element_by_id btn_id (page b)" and "\<not> doc_record b"
  shows "timers (deliver_mutations b) =
           timers b @ replicate (body_records b) (clock b + 1000, TryAddButton 1)"
  using assms
  by (simp add: deliver_mutations_def body_observer_def check_and_add_button_unrendered_funpow)

lemma delivery_spawns_chains_witness:
  "is_pr_path (pathname (page ((load_state example_loading_page)\<lparr>body_records := 3\<rparr>))) \<and>
   header_actions (page ((load_state example_loading_page)\<lparr>body_records := 3\<rparr>)) = None \<and>
   \<not> get_element_by_id btn_id (page ((load_state example_loading_page)\<lparr>body_records := 3\<rparr>)) \<and>
   \<not> doc_record ((load_state example_loading_page)\<lparr>body_records := 3\<rparr>) \<and>
   timers (deliver_mutations ((load_state example_loading_page)\<lparr>body_records := 3\<rparr>)) =
     [(1000, TryAddButton 1), (1000, TryAddButton 1), (1000, TryAddButton 1)]"
proof -
  have h: "is_pr_path (pathname (page ((load_state example_loading_page)\<lparr>body_records := 3\<rparr>)))"
    "header_actions (page ((load_state example_loading_page)\<lparr>body_records := 3\<rparr>)) = None"
    "\<not> get_element_by_id btn_id (page ((load_state example_loading_page)\<lparr>body_records := 3\<rparr>))"
    "\<not> doc_record ((load_state example_loading_page)\<lparr>body_records := 3\<rparr>)"
    by (simp_all add: is_pr_path_def load_state_def example_loading_page_def example_pr_page_def
        get_element_by_id_def doc_ids_def btn_id_def prefix_def)
  show ?thesis
    using delivery_spawns_chains [OF h] h by (simp add: load_state_def numeral_eq_Suc)
qed

text \<open>An issue page of a repository named \<open>pull\<close>.\<close>

definition example_pull_repo_issue :: page where
  "example_pull_repo_issue = example_issue_page\<lparr>meta_nwo := Some (Some ''octo/pull''),
     pathname := ''/octo/pull/issues/3'',
     href := ''https://github.com/octo/pull/issues/3''\<rparr>"

text \<open>
  C30: The PR-page test is a substring test. \<open>checkAndAddButton\<close> accepts any path
  containing \<open>/pull/\<close>, so on every page \<open>/owner/pull/...\<close> of a repository named
  \<open>pull\<close> (its issues, its wiki, its settings) with a rendered header region it inserts
  the button; a click there copies a link as if the page were a pull request.
\<close>

theorem pull_repo_issue_gets_button:
  assumes "pathname (page b) = ''/'' @ owner @ ''/pull/'' @ rest"
    and "header_actions (page b) = Some cs" and "\<not> get_element_by_id btn_id (page b)"
  shows "is_pr_path (pathname (page b)) \<and>
         header_actions (page (check_and_add_button b)) = Some (pr_link_button # cs)"
proof -
  have p: "is_pr_path (pathname (page b))"
    using assms(1) js_includes_append [of "''/pull/''" "''/'' @ owner" rest]
    by (simp add: is_pr_path_def)
  have "get_element_by_id btn_id (page (add_button b))"
    using assms(2) by (simp add: add_button_found)
  with p assms(2,3) show ?thesis
    by (simp add: check_and_add_button_def try_add_button_def add_button_def
        max_attempts_def note_child_list_def)
qed

lemma pull_repo_issue_gets_button_witness:
  "pathname (page (load_state example_pull_repo_issue)) = ''/'' @ ''octo'' @ ''/pull/'' @ ''issues/3'' \<and>
   header_actions (page (load_state example_pull_repo_issue)) =
     Some [Elem ''button'' None ''btn btn-sm'' ''Edit'' False] \<and>
   \<not> get_element_by_id btn_id (page (load_state example_pull_repo_issue)) \<and>
   header_actions (page (check_and_add_button (load_state example_pull_repo_issue))) =
     Some [pr_link_button, Elem ''button'' None ''btn btn-sm'' ''Edit'' False]"
proof -
  note defs = load_state_def example_pull_repo_issue_def example_issue_page_def
    example_pr_page_def get_element_by_id_def doc_ids_def btn_id_def
  have a: "pathname (page (load_state example_pull_repo_issue)) = ''/'' @ ''octo'' @ ''/pull/'' @ ''issues/3''"
    by (simp add: defs)
  have b: "header_actions (page (load_state example_pull_repo_issue)) =
     Some [Elem ''button'' None ''btn btn-sm'' ''Edit'' False]" by (simp add: defs)
  have c: "\<not> get_element_by_id btn_id (page (load_state example_pull_repo_issue))"
    by (simp add: defs)
  show ?thesis using pull_repo_issue_gets_button [OF a b c] a b c by blast
qed

text \<open>
  C10: No click goes unanswered. Whatever the page and the clipboard environment, a
  click shows \<open>"Generating PR link..."\<close> and exactly one further message: at once,
  prefixed \<open>"An error occurred: "\<close> (an extraction error or a synchronous throw,
  caught at line 105), or as the one promise reaction it queues (lines 103--104), which
  is one of the two success messages, the copy-manually error, or the engine's error for
  a missing \<open>writeText\<close> called inside the \<open>.catch\<close>.
\<close>

theorem click_always_reported:
  "(\<exists>e. toasts (page (handle_button_click env b)) =
          toasts (page b) @ [Toast (toast_counter b) generating_msg False,
                             Toast (Suc (toast_counter b)) (error_prefix @ err_message e) False] \<and>
          jobs (handle_button_click env b) = jobs b) \<or>
   (\<exists>m. toasts (page (handle_button_click env b)) =
          toasts (page b) @ [Toast (toast_counter b) generating_msg False] \<and>
          jobs (handle_button_click env b) = jobs b @ [m] \<and>
          (m = rich_ok_msg \<or> m = plain_ok_msg \<or> m = copy_failed_msg \<or>
           m = err_message no_write_text_error))"
  by (auto simp: handle_button_click_def Let_def clipboard_defs
      split: sum.split prod.split copy_outcome.split option.split)

end
